theory Spec2Isabelle
  imports Complex_Main "HOL-Library.AList"
begin

section \<open>Data model\<close>

text \<open>
  The application (\<open>src/EmploymentSupportChecklist.tsx\<close>) keeps four collections in
  the browser's local storage and a fixed checklist of three categories. The interfaces of
  the source become records with the source's field names; fields that several interfaces
  share are written qualified (\<open>EvaluationDraft.targetId d\<close>). JavaScript numbers
  that hold raw responses and score sums are \<open>int\<close>; averages are exact rationals.
\<close>

datatype evaluator = Self | Staff | Family

fun evaluatorString :: "evaluator \<Rightarrow> string" where
  "evaluatorString Self = ''self''"
| "evaluatorString Staff = ''staff''"
| "evaluatorString Family = ''family''"

datatype gender = male | female | other

datatype item_type = radio_5_level | radio_5_level_with_sub_check | radio_2_level_with_sub_check

text \<open>
  An object used as a dictionary (\<open>Record<string, T>\<close>) is an association list:
  \<open>map_of\<close> reads a key (the first binding wins) and \<open>Object_keys\<close> lists every
  key once, in insertion order.
\<close>

type_synonym 'v dict = "(string \<times> 'v) list"

definition Object_keys :: "'v dict \<Rightarrow> string list" where
  "Object_keys obj = remdups (map fst obj)"

record SupportTarget =
  id :: string
  userId :: string
  name :: string
  birthdate :: string
  email :: string
  gender :: gender
  disability :: string
  supportStartDate :: string
  "notes" :: string
  createdAt :: string
  updatedAt :: string

text \<open>\<open>Omit<EvaluationRecord, 'id' | 'createdAt' | 'updatedAt'>\<close>\<close>

record EvaluationRecordInput =
  targetId :: string
  targetName :: string
  evaluationDate :: string
  evaluator :: evaluator
  evaluations :: "int dict"
  subChecks :: "bool dict"
  comments :: "string dict"
  totalScore :: int
  categoryScores :: "rat dict"

record EvaluationRecord =
  id :: string
  targetId :: string
  targetName :: string
  evaluationDate :: string
  evaluator :: evaluator
  evaluations :: "int dict"
  subChecks :: "bool dict"
  comments :: "string dict"
  totalScore :: int
  categoryScores :: "rat dict"
  createdAt :: string
  updatedAt :: string

text \<open>
  \<open>Omit<EvaluationDraft, 'id' | 'createdAt' | 'updatedAt'>\<close>, as \<open>saveDraft\<close> builds
  it: the object carries no \<open>lastSaved\<close>, which \<open>saveEvaluationDraft\<close> sets itself on
  both of its branches.
\<close>

record EvaluationDraftInput =
  targetId :: string
  targetName :: string
  evaluationDate :: string
  evaluator :: evaluator
  evaluations :: "int dict"
  subChecks :: "bool dict"
  comments :: "string dict"
  completionRate :: int

record EvaluationDraft =
  id :: string
  targetId :: string
  targetName :: string
  evaluationDate :: string
  evaluator :: evaluator
  evaluations :: "int dict"
  subChecks :: "bool dict"
  comments :: "string dict"
  completionRate :: int
  lastSaved :: string
  createdAt :: string
  updatedAt :: string

record SupportGoal =
  id :: string
  targetId :: string
  targetName :: string
  goalDate :: string
  selectedGoal :: string
  actionPlan :: string
  successCriteria :: string
  supportNeeded :: string
  aiRecommendations :: "string option"
  createdAt :: string
  updatedAt :: string

text \<open>
  The four local-storage collections. \<open>getItem\<close>/\<open>JSON.parse\<close> and
  \<open>JSON.stringify\<close>/\<open>setItem\<close> read and replace a whole collection.
\<close>

record Store =
  supportTargets :: "SupportTarget list"
  evaluationRecords :: "EvaluationRecord list"
  evaluationDrafts :: "EvaluationDraft list"
  supportGoals :: "SupportGoal list"

text \<open>
  What one call reads from the clock and the random generator:
  \<open>new Date().toISOString()\<close>, \<open>Date.now()\<close> and
  \<open>Math.random().toString(36).slice(2, 11)\<close>.
\<close>

record Env =
  nowISO :: string
  nowMs :: nat
  random36 :: string

subsection \<open>The checklist\<close>

text \<open>
  Of a checklist item the scoring code reads only \<open>type\<close>; \<open>optionCount\<close> is the
  length of the item's \<open>options\<close> array. Category names are the UTF-8 bytes of the
  source's literals.
\<close>

record CategoryItem =
  id :: string
  type :: item_type
  optionCount :: nat

record Category =
  name :: string
  items :: "CategoryItem list"

definition items_I :: "CategoryItem list" where
  "items_I =
     [\<lparr>CategoryItem.id = ''I-1'', type = radio_5_level, optionCount = 5\<rparr>,
      \<lparr>CategoryItem.id = ''I-2'', type = radio_5_level, optionCount = 5\<rparr>,
      \<lparr>CategoryItem.id = ''I-3'', type = radio_5_level, optionCount = 5\<rparr>,
      \<lparr>CategoryItem.id = ''I-4'', type = radio_5_level, optionCount = 5\<rparr>,
      \<lparr>CategoryItem.id = ''I-5'', type = radio_5_level, optionCount = 5\<rparr>,
      \<lparr>CategoryItem.id = ''I-6'', type = radio_5_level_with_sub_check, optionCount = 5\<rparr>,
      \<lparr>CategoryItem.id = ''I-7'', type = radio_5_level_with_sub_check, optionCount = 5\<rparr>,
      \<lparr>CategoryItem.id = ''I-8'', type = radio_5_level_with_sub_check, optionCount = 5\<rparr>,
      \<lparr>CategoryItem.id = ''I-9'', type = radio_5_level, optionCount = 5\<rparr>,
      \<lparr>CategoryItem.id = ''I-10'', type = radio_5_level, optionCount = 5\<rparr>,
      \<lparr>CategoryItem.id = ''I-11'', type = radio_2_level_with_sub_check, optionCount = 2\<rparr>]"

definition items_II :: "CategoryItem list" where
  "items_II =
     [\<lparr>CategoryItem.id = ''II-1'', type = radio_5_level, optionCount = 5\<rparr>,
      \<lparr>CategoryItem.id = ''II-2'', type = radio_5_level, optionCount = 5\<rparr>,
      \<lparr>CategoryItem.id = ''II-3'', type = radio_5_level, optionCount = 5\<rparr>,
      \<lparr>CategoryItem.id = ''II-4'', type = radio_5_level_with_sub_check, optionCount = 5\<rparr>,
      \<lparr>CategoryItem.id = ''II-5'', type = radio_5_level_with_sub_check, optionCount = 5\<rparr>,
      \<lparr>CategoryItem.id = ''II-6'', type = radio_5_level_with_sub_check, optionCount = 5\<rparr>,
      \<lparr>CategoryItem.id = ''II-7'', type = radio_5_level, optionCount = 5\<rparr>,
      \<lparr>CategoryItem.id = ''II-8'', type = radio_2_level_with_sub_check, optionCount = 2\<rparr>]"

definition items_III :: "CategoryItem list" where
  "items_III =
     [\<lparr>CategoryItem.id = ''III-1'', type = radio_5_level, optionCount = 5\<rparr>,
      \<lparr>CategoryItem.id = ''III-2'', type = radio_5_level_with_sub_check, optionCount = 5\<rparr>,
      \<lparr>CategoryItem.id = ''III-3'', type = radio_5_level_with_sub_check, optionCount = 5\<rparr>,
      \<lparr>CategoryItem.id = ''III-4'', type = radio_5_level_with_sub_check, optionCount = 5\<rparr>,
      \<lparr>CategoryItem.id = ''III-5'', type = radio_5_level_with_sub_check, optionCount = 5\<rparr>,
      \<lparr>CategoryItem.id = ''III-6'', type = radio_5_level_with_sub_check, optionCount = 5\<rparr>,
      \<lparr>CategoryItem.id = ''III-7'', type = radio_5_level, optionCount = 5\<rparr>,
      \<lparr>CategoryItem.id = ''III-8'', type = radio_5_level_with_sub_check, optionCount = 5\<rparr>,
      \<lparr>CategoryItem.id = ''III-9'', type = radio_5_level, optionCount = 5\<rparr>,
      \<lparr>CategoryItem.id = ''III-10'', type = radio_5_level, optionCount = 5\<rparr>,
      \<lparr>CategoryItem.id = ''III-11'', type = radio_5_level, optionCount = 5\<rparr>,
      \<lparr>CategoryItem.id = ''III-12'', type = radio_5_level_with_sub_check, optionCount = 5\<rparr>,
      \<lparr>CategoryItem.id = ''III-13'', type = radio_5_level, optionCount = 5\<rparr>,
      \<lparr>CategoryItem.id = ''III-14'', type = radio_5_level_with_sub_check, optionCount = 5\<rparr>,
      \<lparr>CategoryItem.id = ''III-15'', type = radio_5_level_with_sub_check, optionCount = 5\<rparr>]"

definition name_I :: string where
  "name_I = ''I '' @ [CHR 0xE6, CHR 0x97, CHR 0xA5, CHR 0xE5, CHR 0xB8, CHR 0xB8, CHR 0xE7,
     CHR 0x94, CHR 0x9F, CHR 0xE6, CHR 0xB4, CHR 0xBB]"

definition name_II :: string where
  "name_II = ''II '' @ [CHR 0xE5, CHR 0x83, CHR 0x8D, CHR 0xE3, CHR 0x81, CHR 0x8F, CHR 0xE5,
     CHR 0xA0, CHR 0xB4, CHR 0xE3, CHR 0x81, CHR 0xA7, CHR 0xE3, CHR 0x81, CHR 0xAE, CHR 0xE5,
     CHR 0xAF, CHR 0xBE, CHR 0xE4, CHR 0xBA, CHR 0xBA, CHR 0xE9, CHR 0x96, CHR 0xA2, CHR 0xE4,
     CHR 0xBF, CHR 0x82]"

definition name_III :: string where
  "name_III = ''III '' @ [CHR 0xE5, CHR 0x83, CHR 0x8D, CHR 0xE3, CHR 0x81, CHR 0x8F, CHR 0xE5,
     CHR 0xA0, CHR 0xB4, CHR 0xE3, CHR 0x81, CHR 0xA7, CHR 0xE3, CHR 0x81, CHR 0xAE, CHR 0xE8,
     CHR 0xA1, CHR 0x8C, CHR 0xE5, CHR 0x8B, CHR 0x95, CHR 0xE3, CHR 0x83, CHR 0xBB, CHR 0xE6,
     CHR 0x85, CHR 0x8B, CHR 0xE5, CHR 0xBA, CHR 0xA6]"

definition categories :: "Category list" where
  "categories =
     [\<lparr>name = name_I, items = items_I\<rparr>,
      \<lparr>name = name_II, items = items_II\<rparr>,
      \<lparr>name = name_III, items = items_III\<rparr>]"

section \<open>Score transform\<close>

text \<open>
  A number in a template literal prints in decimal. The response key of an item is
  \<open>`${evaluator}-${categoryIndex}-${itemIndex}`\<close>.
\<close>

fun string_of_nat :: "nat \<Rightarrow> string" where
  "string_of_nat n =
     (if n < 10 then [''0123456789'' ! n]
      else string_of_nat (n div 10) @ [''0123456789'' ! (n mod 10)])"

declare string_of_nat.simps [simp del]

definition evaluationKey :: "evaluator \<Rightarrow> nat \<Rightarrow> nat \<Rightarrow> string" where
  "evaluationKey who categoryIndex itemIndex =
     evaluatorString who @ ''-'' @ string_of_nat categoryIndex @ ''-'' @
     string_of_nat itemIndex"

text \<open>\<open>evaluations[key] || 0\<close>: a missing key and a stored 0 both read as 0.\<close>

definition getEvaluation :: "int dict \<Rightarrow> evaluator \<Rightarrow> nat \<Rightarrow> nat \<Rightarrow> int" where
  "getEvaluation evals who categoryIndex itemIndex =
     (case map_of evals (evaluationKey who categoryIndex itemIndex) of
        None \<Rightarrow> 0
      | Some v \<Rightarrow> v)"

text \<open>\<open>categories[categoryIndex]?.items[itemIndex]\<close>: undefined outside the checklist.\<close>

definition categoryItem :: "nat \<Rightarrow> nat \<Rightarrow> CategoryItem option" where
  "categoryItem categoryIndex itemIndex =
     (if categoryIndex < length categories
      then (let its = items (categories ! categoryIndex)
            in if itemIndex < length its then Some (its ! itemIndex) else None)
      else None)"

definition getEvaluationScore :: "int dict \<Rightarrow> evaluator \<Rightarrow> nat \<Rightarrow> nat \<Rightarrow> int" where
  "getEvaluationScore evals who categoryIndex itemIndex =
     (let rawScore = getEvaluation evals who categoryIndex itemIndex
      in if rawScore = 0 then 0
         else case categoryItem categoryIndex itemIndex of
                None \<Rightarrow> 0
              | Some item \<Rightarrow>
                  if type item = radio_2_level_with_sub_check
                  then (if rawScore = 1 then 2 else 1)
                  else 6 - rawScore)"

section \<open>Aggregation\<close>

text \<open>
  \<open>Math.round\<close> rounds to the nearest integer, a tie upwards. The averages are
  computed on exact rationals: the sums are small integers and the counts at most 15, so
  the double-precision quotient lies on the same side of every rounding boundary as the
  exact one.
\<close>

definition Math_round :: "rat \<Rightarrow> int" where
  "Math_round x = \<lfloor>x + 1 / 2\<rfloor>"

datatype error = TypeError

text \<open>
  \<open>categories[categoryIndex].items\<close> throws a TypeError when the index is outside
  the checklist.
\<close>

definition calculateCategoryAverage :: "int dict \<Rightarrow> nat \<Rightarrow> evaluator \<Rightarrow> error + rat" where
  "calculateCategoryAverage evals categoryIndex who =
     (if categoryIndex < length categories
      then (let categoryItems = items (categories ! categoryIndex);
                scores = filter (\<lambda>score. score > 0)
                           (map (\<lambda>itemIndex. getEvaluationScore evals who categoryIndex itemIndex)
                              [0..<length categoryItems])
            in if length scores = 0 then Inr 0
               else Inr (of_int (Math_round
                      (of_int (foldl (\<lambda>sum score. sum + score) 0 scores)
                         / of_nat (length scores) * 100)) / 100))
      else Inl TypeError)"

text \<open>The two derived fields as the direct save (\<open>saveEvaluationRecord\<close>) computes them.\<close>

definition saveEvaluationRecord_totalScore :: "int dict \<Rightarrow> evaluator \<Rightarrow> int" where
  "saveEvaluationRecord_totalScore evals evaluatorType =
     foldl (\<lambda>total (catIndex, category).
        total + foldl (\<lambda>catTotal (itemIndex, item).
                   catTotal + getEvaluationScore evals evaluatorType catIndex itemIndex)
                 0 (enumerate 0 (items category)))
       0 (enumerate 0 categories)"

definition saveEvaluationRecord_categoryScores ::
  "int dict \<Rightarrow> evaluator \<Rightarrow> error + rat dict" where
  "saveEvaluationRecord_categoryScores evals evaluatorType =
     foldl (\<lambda>acc (index, category).
        case acc of
          Inl e \<Rightarrow> Inl e
        | Inr scores \<Rightarrow>
            (case calculateCategoryAverage evals index evaluatorType of
               Inl e \<Rightarrow> Inl e
             | Inr average \<Rightarrow> Inr (AList.update (name category) average scores)))
       (Inr []) (enumerate 0 categories)"

text \<open>The same two fields as \<open>finalizeDraft\<close> computes them from a draft's responses.\<close>

definition finalizeDraft_totalScore :: "int dict \<Rightarrow> evaluator \<Rightarrow> int" where
  "finalizeDraft_totalScore evals who =
     foldl (\<lambda>total (catIndex, category).
        total + foldl (\<lambda>catTotal (itemIndex, item).
                   let key = evaluationKey who catIndex itemIndex;
                       rawScore = (case map_of evals key of None \<Rightarrow> 0 | Some v \<Rightarrow> v)
                   in if rawScore = 0 then catTotal
                      else catTotal +
                        (if type item = radio_2_level_with_sub_check
                         then (if rawScore = 1 then 2 else 1)
                         else 6 - rawScore))
                 0 (enumerate 0 (items category)))
       0 (enumerate 0 categories)"

definition finalizeDraft_category :: "int dict \<Rightarrow> evaluator \<Rightarrow> nat \<Rightarrow> Category \<Rightarrow> rat" where
  "finalizeDraft_category evals who catIndex category =
     (let (catTotal, catCount) =
        foldl (\<lambda>(catTotal, catCount) (itemIndex, item).
           let key = evaluationKey who catIndex itemIndex;
               rawScore = (case map_of evals key of None \<Rightarrow> 0 | Some v \<Rightarrow> v)
           in if rawScore > 0
              then (catTotal +
                      (if type item = radio_2_level_with_sub_check
                       then (if rawScore = 1 then 2 else 1)
                       else 6 - rawScore),
                    catCount + 1)
              else (catTotal, catCount))
          (0 :: int, 0 :: nat) (enumerate 0 (items category))
      in if catCount > 0 then of_int catTotal / of_nat catCount else 0)"

definition finalizeDraft_categoryScores :: "int dict \<Rightarrow> evaluator \<Rightarrow> rat dict" where
  "finalizeDraft_categoryScores evals who =
     foldl (\<lambda>scores (catIndex, category).
        AList.update (name category) (finalizeDraft_category evals who catIndex category) scores)
       [] (enumerate 0 categories)"

section \<open>DataService\<close>

text \<open>\<open>Array.prototype.findIndex\<close>, with \<open>None\<close> for \<open>-1\<close>.\<close>

fun findIndex :: "('a \<Rightarrow> bool) \<Rightarrow> 'a list \<Rightarrow> nat option" where
  "findIndex P [] = None"
| "findIndex P (x # xs) = (if P x then Some 0 else map_option Suc (findIndex P xs))"

definition DataService_deleteEvaluationRecordsByTarget :: "string \<Rightarrow> Store \<Rightarrow> Store" where
  "DataService_deleteEvaluationRecordsByTarget tid s =
     (let records = evaluationRecords s;
          filteredRecords = filter (\<lambda>r. EvaluationRecord.targetId r \<noteq> tid) records
      in s\<lparr>evaluationRecords := filteredRecords\<rparr>)"

definition DataService_deleteSupportTarget :: "string \<Rightarrow> Store \<Rightarrow> bool \<times> Store" where
  "DataService_deleteSupportTarget tid s =
     (let targets = supportTargets s;
          filteredTargets = filter (\<lambda>t. SupportTarget.id t \<noteq> tid) targets
      in if length filteredTargets = length targets then (False, s)
         else (True, DataService_deleteEvaluationRecordsByTarget tid
                       (s\<lparr>supportTargets := filteredTargets\<rparr>)))"

definition DataService_saveEvaluationRecord ::
  "Env \<Rightarrow> EvaluationRecordInput \<Rightarrow> Store \<Rightarrow> EvaluationRecord \<times> Store" where
  "DataService_saveEvaluationRecord env record s =
     (let records = evaluationRecords s;
          now = nowISO env;
          newRecord =
            \<lparr>EvaluationRecord.id = ''eval_'' @ string_of_nat (nowMs env) @ ''_'' @ random36 env,
             targetId = EvaluationRecordInput.targetId record,
             targetName = EvaluationRecordInput.targetName record,
             evaluationDate = EvaluationRecordInput.evaluationDate record,
             evaluator = EvaluationRecordInput.evaluator record,
             evaluations = EvaluationRecordInput.evaluations record,
             subChecks = EvaluationRecordInput.subChecks record,
             comments = EvaluationRecordInput.comments record,
             totalScore = EvaluationRecordInput.totalScore record,
             categoryScores = EvaluationRecordInput.categoryScores record,
             createdAt = now,
             updatedAt = now\<rparr>
      in (newRecord, s\<lparr>evaluationRecords := records @ [newRecord]\<rparr>))"

definition DataService_saveEvaluationDraft ::
  "Env \<Rightarrow> EvaluationDraftInput \<Rightarrow> Store \<Rightarrow> EvaluationDraft \<times> Store" where
  "DataService_saveEvaluationDraft env draft s =
     (let drafts = evaluationDrafts s;
          now = nowISO env
      in case findIndex (\<lambda>d.
                EvaluationDraft.targetId d = EvaluationDraftInput.targetId draft \<and>
                EvaluationDraft.evaluationDate d = EvaluationDraftInput.evaluationDate draft \<and>
                EvaluationDraft.evaluator d = EvaluationDraftInput.evaluator draft) drafts of
           Some existingIndex \<Rightarrow>
             (let updated = (drafts ! existingIndex)
                    \<lparr>EvaluationDraft.targetId := EvaluationDraftInput.targetId draft,
                     EvaluationDraft.targetName := EvaluationDraftInput.targetName draft,
                     EvaluationDraft.evaluationDate := EvaluationDraftInput.evaluationDate draft,
                     EvaluationDraft.evaluator := EvaluationDraftInput.evaluator draft,
                     EvaluationDraft.evaluations := EvaluationDraftInput.evaluations draft,
                     EvaluationDraft.subChecks := EvaluationDraftInput.subChecks draft,
                     EvaluationDraft.comments := EvaluationDraftInput.comments draft,
                     EvaluationDraft.completionRate := EvaluationDraftInput.completionRate draft,
                     EvaluationDraft.updatedAt := now,
                     EvaluationDraft.lastSaved := now\<rparr>
              in (updated, s\<lparr>evaluationDrafts := drafts[existingIndex := updated]\<rparr>))
         | None \<Rightarrow>
             (let newDraft =
                    \<lparr>EvaluationDraft.id =
                       ''draft_'' @ string_of_nat (nowMs env) @ ''_'' @ random36 env,
                     targetId = EvaluationDraftInput.targetId draft,
                     targetName = EvaluationDraftInput.targetName draft,
                     evaluationDate = EvaluationDraftInput.evaluationDate draft,
                     evaluator = EvaluationDraftInput.evaluator draft,
                     evaluations = EvaluationDraftInput.evaluations draft,
                     subChecks = EvaluationDraftInput.subChecks draft,
                     comments = EvaluationDraftInput.comments draft,
                     completionRate = EvaluationDraftInput.completionRate draft,
                     lastSaved = now,
                     createdAt = now,
                     updatedAt = now\<rparr>
              in (newDraft, s\<lparr>evaluationDrafts := drafts @ [newDraft]\<rparr>)))"

definition DataService_loadEvaluationDraft :: "string \<Rightarrow> Store \<Rightarrow> EvaluationDraft option" where
  "DataService_loadEvaluationDraft draftId s =
     find (\<lambda>d. EvaluationDraft.id d = draftId) (evaluationDrafts s)"

definition DataService_deleteEvaluationDraft :: "string \<Rightarrow> Store \<Rightarrow> bool \<times> Store" where
  "DataService_deleteEvaluationDraft draftId s =
     (let drafts = evaluationDrafts s;
          filteredDrafts = filter (\<lambda>d. EvaluationDraft.id d \<noteq> draftId) drafts
      in if length filteredDrafts = length drafts then (False, s)
         else (True, s\<lparr>evaluationDrafts := filteredDrafts\<rparr>))"

section \<open>Evaluation session\<close>

text \<open>
  The component state the save paths read. \<open>selectedTarget\<close> is the component's
  \<open>supportTargets.find(target => target.id === selectedTargetId)\<close>.
\<close>

record Session =
  selectedTargetId :: string
  selectedTarget :: "SupportTarget option"
  currentDate :: string
  activeEvaluator :: evaluator
  evaluations :: "int dict"
  detailChecks :: "bool dict"
  comments :: "string dict"

text \<open>\<open>const [evaluator] = key.split('-')\<close>: the part of the key before its first dash.\<close>

definition splitFirst :: "string \<Rightarrow> string" where
  "splitFirst key = takeWhile (\<lambda>ch. ch \<noteq> CHR ''-'') key"

definition calculateCompletionRate :: "Session \<Rightarrow> int" where
  "calculateCompletionRate sess =
     (let totalItems = foldl (\<lambda>total category. total + length (items category)) 0 categories;
          completedItems =
            length (filter (\<lambda>key.
                splitFirst key = evaluatorString (activeEvaluator sess) \<and>
                (case map_of (Session.evaluations sess) key of
                   None \<Rightarrow> False
                 | Some v \<Rightarrow> v > 0))
              (Object_keys (Session.evaluations sess)))
      in Math_round (of_nat completedItems / of_nat totalItems * 100))"

text \<open>
  The save paths return what \<open>DataService\<close> returned (\<open>None\<close> after the alert that no
  target is selected) and the store; the messages and the component's copies of the
  collections are left out.
\<close>

definition saveDraft :: "Env \<Rightarrow> Session \<Rightarrow> Store \<Rightarrow> EvaluationDraft option \<times> Store" where
  "saveDraft env sess s =
     (case selectedTarget sess of
        None \<Rightarrow> (None, s)
      | Some target \<Rightarrow>
          if selectedTargetId sess = [] then (None, s)
          else (let completionRate = calculateCompletionRate sess;
                    draftData =
                      \<lparr>EvaluationDraftInput.targetId = selectedTargetId sess,
                       targetName = SupportTarget.name target,
                       evaluationDate = currentDate sess,
                       evaluator = activeEvaluator sess,
                       evaluations = Session.evaluations sess,
                       subChecks = detailChecks sess,
                       comments = Session.comments sess,
                       completionRate = completionRate\<rparr>;
                    (saved, s') = DataService_saveEvaluationDraft env draftData s
                in (Some saved, s')))"

definition saveEvaluationRecord ::
  "Env \<Rightarrow> Session \<Rightarrow> evaluator \<Rightarrow> Store \<Rightarrow> error + EvaluationRecord option \<times> Store" where
  "saveEvaluationRecord env sess evaluatorType s =
     (case selectedTarget sess of
        None \<Rightarrow> Inr (None, s)
      | Some target \<Rightarrow>
          if selectedTargetId sess = [] then Inr (None, s)
          else (let totalScore =
                      saveEvaluationRecord_totalScore (Session.evaluations sess) evaluatorType
                in case saveEvaluationRecord_categoryScores (Session.evaluations sess)
                          evaluatorType of
                     Inl e \<Rightarrow> Inl e
                   | Inr averages \<Rightarrow>
                       (let evaluationRecord =
                              \<lparr>EvaluationRecordInput.targetId = selectedTargetId sess,
                               targetName = SupportTarget.name target,
                               evaluationDate = currentDate sess,
                               evaluator = evaluatorType,
                               evaluations = Session.evaluations sess,
                               subChecks = detailChecks sess,
                               comments = Session.comments sess,
                               totalScore = totalScore,
                               categoryScores = averages\<rparr>;
                            (saved, s') = DataService_saveEvaluationRecord env evaluationRecord s
                        in Inr (Some saved, s'))))"

definition finalizeDraft :: "Env \<Rightarrow> string \<Rightarrow> Store \<Rightarrow> EvaluationRecord option \<times> Store" where
  "finalizeDraft env draftId s =
     (case DataService_loadEvaluationDraft draftId s of
        None \<Rightarrow> (None, s)
      | Some draft \<Rightarrow>
          (let totalScore =
                 finalizeDraft_totalScore (EvaluationDraft.evaluations draft)
                   (EvaluationDraft.evaluator draft);
               categoryScores =
                 finalizeDraft_categoryScores (EvaluationDraft.evaluations draft)
                   (EvaluationDraft.evaluator draft);
               evaluationRecord =
                 \<lparr>EvaluationRecordInput.targetId = EvaluationDraft.targetId draft,
                  targetName = EvaluationDraft.targetName draft,
                  evaluationDate = EvaluationDraft.evaluationDate draft,
                  evaluator = EvaluationDraft.evaluator draft,
                  evaluations = EvaluationDraft.evaluations draft,
                  subChecks = EvaluationDraft.subChecks draft,
                  comments = EvaluationDraft.comments draft,
                  totalScore = totalScore,
                  categoryScores = categoryScores\<rparr>;
               (saved, s1) = DataService_saveEvaluationRecord env evaluationRecord s;
               (deleted, s2) = DataService_deleteEvaluationDraft draftId s1
           in (Some saved, s2)))"


section \<open>Declared domain of the responses\<close>

text \<open>
  A raw response is 0 (unanswered) or the 1-based index of one of the item's options.
  \<open>allItems\<close> lists the checklist's (category index, item index) pairs.
\<close>

definition inDomain :: "CategoryItem \<Rightarrow> int \<Rightarrow> bool" where
  "inDomain item rawResponse = (0 \<le> rawResponse \<and> rawResponse \<le> int (optionCount item))"

definition categoryInDomain :: "int dict \<Rightarrow> evaluator \<Rightarrow> nat \<Rightarrow> bool" where
  "categoryInDomain evals who categoryIndex =
     (categoryIndex < length categories \<and>
      list_all (\<lambda>(itemIndex, item).
          inDomain item (getEvaluation evals who categoryIndex itemIndex))
        (enumerate 0 (items (categories ! categoryIndex))))"

definition allItems :: "(nat \<times> nat) list" where
  "allItems =
     concat (map (\<lambda>(catIndex, category). map (\<lambda>itemIndex. (catIndex, itemIndex))
                    [0..<length (items category)])
               (enumerate 0 categories))"

section \<open>Composite keys and sample data\<close>

text \<open>
  The triple \<open>saveEvaluationDraft\<close> compares, read from a stored draft and from the
  object being saved.
\<close>

definition draftKey :: "EvaluationDraft \<Rightarrow> string \<times> string \<times> evaluator" where
  "draftKey d =
     (EvaluationDraft.targetId d, EvaluationDraft.evaluationDate d, EvaluationDraft.evaluator d)"

definition draftInputKey :: "EvaluationDraftInput \<Rightarrow> string \<times> string \<times> evaluator" where
  "draftInputKey d =
     (EvaluationDraftInput.targetId d, EvaluationDraftInput.evaluationDate d,
      EvaluationDraftInput.evaluator d)"

text \<open>A small store, two clock readings and a session used to run the operations.\<close>

definition emptyStore :: Store where
  "emptyStore =
     \<lparr>supportTargets = [], evaluationRecords = [], evaluationDrafts = [], supportGoals = []\<rparr>"

definition env1 :: Env where
  "env1 = \<lparr>nowISO = ''2025-04-01T09:00:00.000Z'', nowMs = 1743498000000, random36 = ''k3x9q2m1z''\<rparr>"

definition env2 :: Env where
  "env2 = \<lparr>nowISO = ''2025-04-01T09:05:00.000Z'', nowMs = 1743498300000, random36 = ''p7w4c8n5b''\<rparr>"

definition sampleTarget :: SupportTarget where
  "sampleTarget =
     \<lparr>SupportTarget.id = ''T1'', userId = ''U001'', name = ''Tanaka Taro'',
      birthdate = ''1990-01-01'', email = ''taro@example.com'', gender = male,
      disability = '''', supportStartDate = ''2025-01-06'', notes = '''',
      createdAt = ''2025-01-06T00:00:00.000Z'', updatedAt = ''2025-01-06T00:00:00.000Z''\<rparr>"

definition sampleSession :: "int dict \<Rightarrow> Session" where
  "sampleSession evals =
     \<lparr>selectedTargetId = ''T1'', selectedTarget = Some sampleTarget,
      currentDate = ''2025-04-01'', activeEvaluator = Staff, evaluations = evals,
      detailChecks = [], comments = []\<rparr>"

definition sampleDraftInput :: "int dict \<Rightarrow> int \<Rightarrow> EvaluationDraftInput" where
  "sampleDraftInput evals rate =
     \<lparr>EvaluationDraftInput.targetId = ''T1'', targetName = ''Tanaka Taro'',
      evaluationDate = ''2025-04-01'', evaluator = Staff, evaluations = evals,
      subChecks = [], comments = [], completionRate = rate\<rparr>"

text \<open>
  The keys \<open>handleEvaluation\<close> can write: one per evaluator and checklist item. A response
  object is well formed when each of its keys is one of them and no stored value is
  negative.
\<close>

definition allKeys :: "string list" where
  "allKeys =
     concat (map (\<lambda>who. map (\<lambda>(catIndex, itemIndex). evaluationKey who catIndex itemIndex) allItems)
               [Self, Staff, Family])"

definition responsesWellFormed :: "int dict \<Rightarrow> bool" where
  "responsesWellFormed evals = list_all (\<lambda>(key, v). key \<in> set allKeys \<and> 0 \<le> v) evals"

section \<open>Properties of the score transform\<close>

lemma string_of_nat_small:
  "string_of_nat 0 = ''0''" "string_of_nat 1 = ''1''" "string_of_nat 2 = ''2''"
  "string_of_nat 3 = ''3''" "string_of_nat 4 = ''4''" "string_of_nat 5 = ''5''"
  "string_of_nat 6 = ''6''" "string_of_nat 7 = ''7''" "string_of_nat 8 = ''8''"
  "string_of_nat 9 = ''9''" "string_of_nat 10 = ''10''" "string_of_nat 11 = ''11''"
  "string_of_nat 12 = ''12''" "string_of_nat 13 = ''13''" "string_of_nat 14 = ''14''"
  by (simp_all add: string_of_nat.simps)

lemma length_categories: "length categories = 3"
  by (simp add: categories_def)

lemma items_categories:
  "items (categories ! 0) = items_I" "items (categories ! 1) = items_II"
  "items (categories ! 2) = items_III"
  by (simp_all add: categories_def)

lemma length_items:
  "length items_I = 11" "length items_II = 8" "length items_III = 15"
  by (simp_all add: items_I_def items_II_def items_III_def)

text \<open>
  Claim C1. An unanswered item (raw 0) scores 0 whatever its type; a 2-level item scores 2
  for raw 1 and 1 for raw 2; a 5-level item, with or without sub-checks, scores
  \<open>6 - r\<close> for a raw \<open>r\<close> from 1 to 5. The score is a function of the raw response
  and the item alone: two response objects that store the same raw response give the same
  score.
\<close>

theorem getEvaluationScore_transform:
  assumes "categoryItem c i = Some item"
  shows "(getEvaluation ev e c i = 0 \<longrightarrow> getEvaluationScore ev e c i = 0) \<and>
         (type item = radio_2_level_with_sub_check \<and> getEvaluation ev e c i = 1 \<longrightarrow>
            getEvaluationScore ev e c i = 2) \<and>
         (type item = radio_2_level_with_sub_check \<and> getEvaluation ev e c i = 2 \<longrightarrow>
            getEvaluationScore ev e c i = 1) \<and>
         (type item \<in> {radio_5_level, radio_5_level_with_sub_check} \<and>
          1 \<le> getEvaluation ev e c i \<and> getEvaluation ev e c i \<le> 5 \<longrightarrow>
            getEvaluationScore ev e c i = 6 - getEvaluation ev e c i) \<and>
         (getEvaluation ev' e c i = getEvaluation ev e c i \<longrightarrow>
            getEvaluationScore ev' e c i = getEvaluationScore ev e c i)"
  using assms by (auto simp: getEvaluationScore_def Let_def)

theorem getEvaluationScore_transform_witness:
  "getEvaluationScore [] Staff 0 0 = 0 \<and>
   getEvaluationScore [(''self-0-10'', 1)] Self 0 10 = 2 \<and>
   getEvaluationScore [(''self-0-10'', 2)] Self 0 10 = 1 \<and>
   getEvaluationScore [(''staff-0-0'', 1)] Staff 0 0 = 5 \<and>
   getEvaluationScore [(''family-1-4'', 4)] Family 1 4 = 2"
proof -
  have i0: "categoryItem 0 0 = Some \<lparr>CategoryItem.id = ''I-1'', type = radio_5_level, optionCount = 5\<rparr>"
    by code_simp
  have i10: "categoryItem 0 10 =
      Some \<lparr>CategoryItem.id = ''I-11'', type = radio_2_level_with_sub_check, optionCount = 2\<rparr>"
    by code_simp
  have i14: "categoryItem 1 4 =
      Some \<lparr>CategoryItem.id = ''II-5'', type = radio_5_level_with_sub_check, optionCount = 5\<rparr>"
    by code_simp
  have r0: "getEvaluation [] Staff 0 0 = 0" by code_simp
  have r1: "getEvaluation [(''self-0-10'', 1)] Self 0 10 = 1" by code_simp
  have r2: "getEvaluation [(''self-0-10'', 2)] Self 0 10 = 2" by code_simp
  have r3: "getEvaluation [(''staff-0-0'', 1)] Staff 0 0 = 1" by code_simp
  have r4: "getEvaluation [(''family-1-4'', 4)] Family 1 4 = 4" by code_simp
  have 0: "getEvaluationScore [] Staff 0 0 = 0"
    using getEvaluationScore_transform [OF i0, of "[]" Staff] r0 by blast
  have 1: "getEvaluationScore [(''self-0-10'', 1)] Self 0 10 = 2"
    using getEvaluationScore_transform [OF i10, of "[(''self-0-10'', 1)]" Self] r1 by simp
  have 2: "getEvaluationScore [(''self-0-10'', 2)] Self 0 10 = 1"
    using getEvaluationScore_transform [OF i10, of "[(''self-0-10'', 2)]" Self] r2 by simp
  have 3: "getEvaluationScore [(''staff-0-0'', 1)] Staff 0 0 = 5"
    using getEvaluationScore_transform [OF i0, of "[(''staff-0-0'', 1)]" Staff] r3 by simp
  have 4: "getEvaluationScore [(''family-1-4'', 4)] Family 1 4 = 2"
    using getEvaluationScore_transform [OF i14, of "[(''family-1-4'', 4)]" Family] r4 by simp
  from 0 1 2 3 4 show ?thesis by blast
qed

section \<open>Properties of the aggregation\<close>

lemma foldl_plus_sum_list: "foldl (\<lambda>sum score. sum + score) a xs = a + sum_list (xs :: int list)"
  by (induction xs arbitrary: a) simp_all

lemma foldl_enumerate_sum:
  "foldl (\<lambda>a (i, x). a + f i x) (a0 :: int) (enumerate n xs) = a0 + (\<Sum>k<length xs. f (n + k) (xs ! k))"
proof (induction xs arbitrary: a0 n)
  case Nil
  then show ?case by simp
next
  case (Cons x xs)
  have "(\<Sum>k<length (x # xs). f (n + k) ((x # xs) ! k)) = f n x + (\<Sum>k<length xs. f (Suc n + k) (xs ! k))"
    by (simp add: sum.lessThan_Suc_shift del: sum.lessThan_Suc)
  with Cons.IH [of "a0 + f n x" "Suc n"] show ?case by simp
qed

lemma enumerate_categories:
  "enumerate 0 categories = [(0, categories ! 0), (1, categories ! 1), (2, categories ! 2)]"
  by (simp add: categories_def enumerate_eq_zip upt_rec)

lemma Math_round_bounds:
  "x - 1 / 2 < of_int (Math_round x)" "of_int (Math_round x) \<le> x + 1 / 2"
  unfolding Math_round_def by linarith+

lemma Math_round_of_int: "Math_round (of_int k) = k"
  unfolding Math_round_def by linarith

lemma saveEvaluationRecord_totalScore_sum:
  "saveEvaluationRecord_totalScore ev e =
     (\<Sum>c<length categories. \<Sum>i<length (items (categories ! c)). getEvaluationScore ev e c i)"
proof -
  have "{..<3::nat} = {0, 1, 2}" by auto
  then show ?thesis
    by (simp add: saveEvaluationRecord_totalScore_def enumerate_categories foldl_enumerate_sum
        length_categories)
qed

lemma categoryItem_enumerate:
  assumes "c < length categories" "(k, item) \<in> set (enumerate 0 (items (categories ! c)))"
  shows "categoryItem c k = Some item"
  using assms by (auto simp: categoryItem_def in_set_enumerate_eq)

lemma finalizeDraft_inner_total:
  assumes "c < length categories"
  shows "foldl (\<lambda>catTotal (itemIndex, item).
                   let key = evaluationKey who c itemIndex;
                       rawScore = (case map_of evals key of None \<Rightarrow> 0 | Some v \<Rightarrow> v)
                   in if rawScore = 0 then catTotal
                      else catTotal +
                        (if type item = radio_2_level_with_sub_check
                         then (if rawScore = 1 then 2 else 1)
                         else 6 - rawScore))
                 0 (enumerate 0 (items (categories ! c)))
        = foldl (\<lambda>catTotal (itemIndex, item). catTotal + getEvaluationScore evals who c itemIndex)
                 0 (enumerate 0 (items (categories ! c)))"
proof (rule foldl_cong [OF refl refl])
  fix a :: int and x assume x: "x \<in> set (enumerate 0 (items (categories ! c)))"
  obtain k item where kx: "x = (k, item)" by (cases x)
  with x assms have "categoryItem c k = Some item" by (simp add: categoryItem_enumerate)
  then show "(case x of (itemIndex, item) \<Rightarrow>
                   let key = evaluationKey who c itemIndex;
                       rawScore = (case map_of evals key of None \<Rightarrow> 0 | Some v \<Rightarrow> v)
                   in if rawScore = 0 then a
                      else a +
                        (if type item = radio_2_level_with_sub_check
                         then (if rawScore = 1 then 2 else 1)
                         else 6 - rawScore))
        = (case x of (itemIndex, item) \<Rightarrow> a + getEvaluationScore evals who c itemIndex)"
    by (simp add: kx getEvaluationScore_def getEvaluation_def Let_def)
qed

lemma finalizeDraft_totalScore_eq:
  "finalizeDraft_totalScore evals who = saveEvaluationRecord_totalScore evals who"
proof -
  have c: "0 < length categories" "1 < length categories" "2 < length categories"
    by (simp_all add: length_categories)
  show ?thesis
    unfolding finalizeDraft_totalScore_def saveEvaluationRecord_totalScore_def
      enumerate_categories
    by (simp only: foldl.simps prod.case finalizeDraft_inner_total [OF c(1)]
        finalizeDraft_inner_total [OF c(2)] finalizeDraft_inner_total [OF c(3)])
qed

lemma items_categories_Suc: "items (categories ! Suc 0) = items_II"
  by (simp add: categories_def)

lemma items_table:
  assumes "c < length categories" "i < length (items (categories ! c))"
  shows "(type (items (categories ! c) ! i) = radio_2_level_with_sub_check \<and>
            optionCount (items (categories ! c) ! i) = 2) \<or>
         (type (items (categories ! c) ! i) \<noteq> radio_2_level_with_sub_check \<and>
            optionCount (items (categories ! c) ! i) = 5)"
proof -
  have all: "\<And>its. list_all (\<lambda>item. (type item = radio_2_level_with_sub_check \<and> optionCount item = 2) \<or>
         (type item \<noteq> radio_2_level_with_sub_check \<and> optionCount item = 5)) its \<Longrightarrow> i < length its \<Longrightarrow>
         (type (its ! i) = radio_2_level_with_sub_check \<and> optionCount (its ! i) = 2) \<or>
         (type (its ! i) \<noteq> radio_2_level_with_sub_check \<and> optionCount (its ! i) = 5)"
    by (simp add: list_all_length)
  from assms(1) have "c = 0 \<or> c = 1 \<or> c = 2" by (auto simp: length_categories)
  then show ?thesis
  proof (elim disjE)
    assume "c = 0"
    with assms(2) show ?thesis
      by (intro all) (simp_all add: items_categories items_I_def)
  next
    assume "c = 1"
    with assms(2) show ?thesis
      by (intro all) (simp_all add: items_categories_Suc items_II_def)
  next
    assume "c = 2"
    with assms(2) show ?thesis
      by (intro all) (simp_all add: items_categories items_III_def)
  qed
qed

lemma categoryItem_nth:
  "c < length categories \<Longrightarrow> i < length (items (categories ! c)) \<Longrightarrow>
   categoryItem c i = Some (items (categories ! c) ! i)"
  by (simp add: categoryItem_def)

lemma categoryInDomain_nth:
  assumes "categoryInDomain ev e c" "i < length (items (categories ! c))"
  shows "inDomain (items (categories ! c) ! i) (getEvaluation ev e c i)"
proof -
  have "(i, items (categories ! c) ! i) \<in> set (enumerate 0 (items (categories ! c)))"
    using assms(2) by (simp add: in_set_enumerate_eq)
  with assms(1) show ?thesis
    unfolding categoryInDomain_def list_all_iff by fastforce
qed

lemma score_nonneg:
  assumes "categoryInDomain ev e c" "i < length (items (categories ! c))"
  shows "0 \<le> getEvaluationScore ev e c i"
    and "getEvaluationScore ev e c i = 0 \<longleftrightarrow> getEvaluation ev e c i = 0"
proof -
  have c: "c < length categories" using assms(1) by (simp add: categoryInDomain_def)
  note d = categoryInDomain_nth [OF assms] and t = items_table [OF c assms(2)]
    and ci = categoryItem_nth [OF c assms(2)]
  show "0 \<le> getEvaluationScore ev e c i"
    using d t by (auto simp: getEvaluationScore_def ci inDomain_def Let_def)
  show "getEvaluationScore ev e c i = 0 \<longleftrightarrow> getEvaluation ev e c i = 0"
    using d t by (auto simp: getEvaluationScore_def ci inDomain_def Let_def)
qed

lemma getEvaluationScore_cong:
  "getEvaluation ev' e c i = getEvaluation ev e c i \<Longrightarrow>
   getEvaluationScore ev' e c i = getEvaluationScore ev e c i"
  by (simp add: getEvaluationScore_def)

lemma calculateCategoryAverage_eq:
  assumes "c < length categories"
  shows "calculateCategoryAverage ev c e =
     (let pos = filter (\<lambda>i. 0 < getEvaluationScore ev e c i) [0..<length (items (categories ! c))]
      in Inr (if pos = [] then 0
              else of_int (Math_round (of_int (\<Sum>i\<leftarrow>pos. getEvaluationScore ev e c i)
                     / of_nat (length pos) * 100)) / 100))"
  using assms
  by (simp add: calculateCategoryAverage_def Let_def filter_map comp_def foldl_plus_sum_list)

text \<open>
  Claim C3 (as amended). For every category and evaluator, \<open>calculateCategoryAverage\<close>
  scores every item of the category, keeps the items whose score is positive, and returns
  the mean of the kept scores rounded to two decimals (a multiple of 1/100 within 1/200 of
  the mean), or 0 when no score is positive; it returns 0 when no item is answered. For
  responses in the declared domain the dropped items are exactly those whose score is 0;
  an out-of-domain response whose score is 0 or negative is dropped as well. The result
  depends on the response object only through the raw responses of the category's items:
  another object that stores the same responses, in any insertion order, gives the same
  average.
\<close>

theorem calculateCategoryAverage_mean:
  fixes ev ev' :: "int dict" and e :: evaluator
  assumes c: "c < length categories"
  defines "n \<equiv> length (items (categories ! c))"
  defines "kept \<equiv> filter (\<lambda>i. 0 < getEvaluationScore ev e c i) [0..<n]"
  defines "mean \<equiv> (of_int (\<Sum>i\<leftarrow>kept. getEvaluationScore ev e c i) / of_nat (length kept) :: rat)"
  shows "calculateCategoryAverage ev c e =
           Inr (if kept = [] then 0 else of_int (Math_round (mean * 100)) / 100) \<and>
         \<bar>of_int (Math_round (mean * 100)) / 100 - mean\<bar> \<le> 1 / 200 \<and>
         (categoryInDomain ev e c \<longrightarrow>
            kept = filter (\<lambda>i. getEvaluationScore ev e c i \<noteq> 0) [0..<n]) \<and>
         ((\<forall>i<n. getEvaluation ev e c i = 0) \<longrightarrow> calculateCategoryAverage ev c e = Inr 0) \<and>
         ((\<forall>i<n. getEvaluation ev' e c i = getEvaluation ev e c i) \<longrightarrow>
            calculateCategoryAverage ev' c e = calculateCategoryAverage ev c e)"
proof (intro conjI impI)
  show main: "calculateCategoryAverage ev c e =
           Inr (if kept = [] then 0 else of_int (Math_round (mean * 100)) / 100)"
    unfolding calculateCategoryAverage_eq [OF c] Let_def n_def [symmetric] kept_def [symmetric]
      mean_def
    by (rule refl)
  show "\<bar>of_int (Math_round (mean * 100)) / 100 - mean\<bar> \<le> 1 / 200"
  proof -
    have "mean * 100 - 1 / 2 < of_int (Math_round (mean * 100))"
      and "of_int (Math_round (mean * 100)) \<le> mean * 100 + 1 / 2"
      by (rule Math_round_bounds)+
    then have "of_int (Math_round (mean * 100)) / 100 - mean \<le> 1 / 200"
      and "- (of_int (Math_round (mean * 100)) / 100 - mean) \<le> 1 / 200"
      by (simp_all add: field_simps)
    then show ?thesis by (simp only: abs_le_iff)
  qed
  {
    assume dom: "categoryInDomain ev e c"
    show "kept = filter (\<lambda>i. getEvaluationScore ev e c i \<noteq> 0) [0..<n]"
      unfolding kept_def
    proof (rule filter_cong [OF refl])
      fix i assume "i \<in> set [0..<n]"
      then have "i < length (items (categories ! c))" by (simp add: n_def)
      from score_nonneg(1) [OF dom this]
      show "(0 < getEvaluationScore ev e c i) = (getEvaluationScore ev e c i \<noteq> 0)"
        by linarith
    qed
  }
  {
    assume zero: "\<forall>i<n. getEvaluation ev e c i = 0"
    have "kept = []"
      unfolding kept_def filter_empty_conv
      using zero by (simp add: getEvaluationScore_def)
    with main show "calculateCategoryAverage ev c e = Inr 0" by simp
  }
  {
    assume same: "\<forall>i<n. getEvaluation ev' e c i = getEvaluation ev e c i"
    note sc = getEvaluationScore_cong [OF same [rule_format]]
    have f: "filter (\<lambda>i. 0 < getEvaluationScore ev' e c i) [0..<n] =
          filter (\<lambda>i. 0 < getEvaluationScore ev e c i) [0..<n]"
      by (rule filter_cong [OF refl]) (simp add: sc)
    have s: "(\<Sum>i\<leftarrow>filter (\<lambda>i. 0 < getEvaluationScore ev e c i) [0..<n].
                getEvaluationScore ev' e c i) =
             (\<Sum>i\<leftarrow>filter (\<lambda>i. 0 < getEvaluationScore ev e c i) [0..<n].
                getEvaluationScore ev e c i)"
      by (rule arg_cong [where f = sum_list], rule map_cong [OF refl]) (simp add: sc)
    show "calculateCategoryAverage ev' c e = calculateCategoryAverage ev c e"
      unfolding calculateCategoryAverage_eq [OF c] Let_def n_def [symmetric] f s
      by (rule refl)
  }
qed

theorem calculateCategoryAverage_mean_witness:
  "categoryInDomain [(''staff-0-0'', 1), (''staff-0-1'', 0), (''staff-0-2'', 5)] Staff 0 \<and>
   calculateCategoryAverage [(''staff-0-0'', 1), (''staff-0-1'', 0), (''staff-0-2'', 5)] 0 Staff = Inr 3 \<and>
   filter (\<lambda>i. 0 < getEvaluationScore [(''staff-0-0'', 1), (''staff-0-1'', 0), (''staff-0-2'', 5)] Staff 0 i)
       [0..<length (items (categories ! 0))] =
     filter (\<lambda>i. getEvaluationScore [(''staff-0-0'', 1), (''staff-0-1'', 0), (''staff-0-2'', 5)] Staff 0 i \<noteq> 0)
       [0..<length (items (categories ! 0))] \<and>
   calculateCategoryAverage [(''staff-0-2'', 5), (''staff-0-0'', 1)] 0 Staff = Inr 3 \<and>
   calculateCategoryAverage [] 0 Staff = Inr 0 \<and>
   calculateCategoryAverage [(''staff-0-0'', 7), (''staff-0-1'', 1)] 0 Staff = Inr 5"
proof -
  let ?ev = "[(''staff-0-0'', 1), (''staff-0-1'', 0), (''staff-0-2'', 5)] :: int dict"
  let ?ev' = "[(''staff-0-2'', 5), (''staff-0-0'', 1)] :: int dict"
  let ?out = "[(''staff-0-0'', 7), (''staff-0-1'', 1)] :: int dict"
  have c: "0 < length categories" by (simp add: length_categories)
  have dom: "categoryInDomain ?ev Staff 0" by code_simp
  have kept: "filter (\<lambda>i. 0 < getEvaluationScore ?ev Staff 0 i) [0..<length (items (categories ! 0))] = [0, 2]"
    by code_simp
  have mean: "(of_int (\<Sum>i\<leftarrow>[0, 2]. getEvaluationScore ?ev Staff 0 i) / of_nat (length [0::nat, 2]) :: rat) = 3"
    by code_simp
  have kept_out: "filter (\<lambda>i. 0 < getEvaluationScore ?out Staff 0 i) [0..<length (items (categories ! 0))] = [1]"
    by code_simp
  have mean_out: "(of_int (\<Sum>i\<leftarrow>[1]. getEvaluationScore ?out Staff 0 i) / of_nat (length [1::nat]) :: rat) = 5"
    by code_simp
  have r: "Math_round 300 = 300" "Math_round 500 = 500" by code_simp+
  have same: "\<forall>i<length (items (categories ! 0)). getEvaluation ?ev' Staff 0 i = getEvaluation ?ev Staff 0 i"
  proof -
    have "list_all (\<lambda>i. getEvaluation ?ev' Staff 0 i = getEvaluation ?ev Staff 0 i) [0..<length (items (categories ! 0))]"
      by code_simp
    then show ?thesis by (simp add: list_all_iff)
  qed
  have zero: "\<forall>i<length (items (categories ! 0)). getEvaluation [] Staff 0 i = 0"
    by (simp add: getEvaluation_def)
  note t = calculateCategoryAverage_mean [OF c, where ev = ?ev and e = Staff and ev' = ?ev']
  note t0 = calculateCategoryAverage_mean [OF c, where ev = "[]" and e = Staff and ev' = "[]"]
  note t1 = calculateCategoryAverage_mean [OF c, where ev = ?out and e = Staff and ev' = ?out]
  have 1: "calculateCategoryAverage ?ev 0 Staff = Inr 3"
    using t unfolding kept mean by (simp add: r)
  have 2: "filter (\<lambda>i. 0 < getEvaluationScore ?ev Staff 0 i) [0..<length (items (categories ! 0))] =
     filter (\<lambda>i. getEvaluationScore ?ev Staff 0 i \<noteq> 0) [0..<length (items (categories ! 0))]"
    using t dom by blast
  have 3: "calculateCategoryAverage ?ev' 0 Staff = Inr 3"
    using t same 1 by simp
  have 4: "calculateCategoryAverage [] 0 Staff = Inr 0"
    using t0 zero by blast
  have 5: "calculateCategoryAverage ?out 0 Staff = Inr 5"
    using t1 unfolding kept_out mean_out by (simp add: r)
  from dom 1 2 3 4 5 show ?thesis by blast
qed

text \<open>
  The claim as stated, that exactly the items of score 0 are dropped, fails when a stored
  response is far enough out of domain: raw 7 on the first item scores -1 and raw 1 on the
  second scores 5. The mean of the non-zero scores, rounded, is 2; the function drops the
  negative score and returns 5.
\<close>

theorem calculateCategoryAverage_nonzero_counterexample:
  "getEvaluationScore [(''staff-0-0'', 7), (''staff-0-1'', 1)] Staff 0 0 = - 1 \<and>
   getEvaluationScore [(''staff-0-0'', 7), (''staff-0-1'', 1)] Staff 0 1 = 5 \<and>
   filter (\<lambda>i. getEvaluationScore [(''staff-0-0'', 7), (''staff-0-1'', 1)] Staff 0 i \<noteq> 0)
     [0..<length (items (categories ! 0))] = [0, 1] \<and>
   (of_int (Math_round
      (of_int (\<Sum>i\<leftarrow>[0, 1]. getEvaluationScore [(''staff-0-0'', 7), (''staff-0-1'', 1)] Staff 0 i)
         / of_nat (length [0 :: nat, 1]) * 100)) / 100 :: rat) = 2 \<and>
   calculateCategoryAverage [(''staff-0-0'', 7), (''staff-0-1'', 1)] 0 Staff = Inr 5"
  by code_simp

lemma allItems_set:
  "(c, k) \<in> set allItems \<longleftrightarrow> c < length categories \<and> k < length (items (categories ! c))"
proof -
  have "c < length categories \<longleftrightarrow> c = 0 \<or> c = 1 \<or> c = 2"
    by (auto simp: length_categories)
  then show ?thesis
    by (auto simp: allItems_def enumerate_categories)
qed

lemma Math_round_numeral: "Math_round (numeral k) = numeral k"
  using Math_round_of_int [of "numeral k"] by simp

lemma sum_two_nonzero:
  fixes f :: "nat \<Rightarrow> int"
  assumes "i < n" "j < n" "i \<noteq> j" "\<And>k. k < n \<Longrightarrow> k \<noteq> i \<Longrightarrow> k \<noteq> j \<Longrightarrow> f k = 0"
  shows "sum f {..<n} = f i + f j"
proof -
  have "sum f {..<n} = sum f ({..<n} - {i, j}) + sum f {i, j}"
    using assms(1,2) by (intro sum.subset_diff) auto
  moreover have "sum f ({..<n} - {i, j}) = 0"
    by (rule sum.neutral) (use assms(4) in auto)
  ultimately show ?thesis using assms(3) by simp
qed

lemma sum_all_zero:
  fixes f :: "nat \<Rightarrow> int"
  assumes "\<And>k. k < n \<Longrightarrow> f k = 0"
  shows "sum f {..<n} = 0"
  by (rule sum.neutral) (use assms in auto)

lemma length_filter_two:
  fixes f :: "nat \<Rightarrow> int"
  assumes "i < n" "j < n" "i \<noteq> j" "0 < f i" "0 < f j"
    "\<And>k. k < n \<Longrightarrow> k \<noteq> i \<Longrightarrow> k \<noteq> j \<Longrightarrow> f k = 0"
  shows "length (filter (\<lambda>k. 0 < f k) [0..<n]) = 2"
proof -
  have "{k. k < n \<and> 0 < f k} = {i, j}"
  proof (intro set_eqI iffI)
    fix k assume "k \<in> {k. k < n \<and> 0 < f k}"
    then have "k < n" "0 < f k" by auto
    with assms(6) [of k] have "k = i \<or> k = j" by fastforce
    then show "k \<in> {i, j}" by auto
  next
    fix k assume "k \<in> {i, j}"
    with assms(1,2,4,5) show "k \<in> {k. k < n \<and> 0 < f k}" by auto
  qed
  moreover have "length (filter (\<lambda>k. 0 < f k) [0..<n]) = card {k. k < n \<and> 0 < f k}"
    by (simp add: length_filter_conv_card cong: conj_cong)
  ultimately show ?thesis using assms(3) by simp
qed

lemma sum_list_filter_pos:
  fixes f :: "nat \<Rightarrow> int"
  assumes "\<And>k. k < n \<Longrightarrow> 0 \<le> f k"
  shows "(\<Sum>k\<leftarrow>filter (\<lambda>k. 0 < f k) [0..<n]. f k) = sum f {..<n}"
proof -
  have "(\<Sum>k\<leftarrow>filter (\<lambda>k. 0 < f k) [0..<n]. f k) = (\<Sum>k\<leftarrow>[0..<n]. f k)"
    by (rule sum_list_map_filter) (use assms in force)
  also have "\<dots> = sum f {..<n}"
    by (simp add: interv_sum_list_conv_sum_set_nat lessThan_atLeast0)
  finally show ?thesis .
qed

lemma score_five_level:
  assumes "categoryItem c i = Some item" "type item \<noteq> radio_2_level_with_sub_check"
    "getEvaluation ev e c i \<noteq> 0"
  shows "getEvaluationScore ev e c i = 6 - getEvaluation ev e c i"
  using assms by (simp add: getEvaluationScore_def)

lemma score_unanswered: "getEvaluation ev e c i = 0 \<Longrightarrow> getEvaluationScore ev e c i = 0"
  by (simp add: getEvaluationScore_def)

text \<open>
  Claim C4. On both save paths \<open>totalScore\<close> is the plain sum of the scores of all
  items of all three categories, so an unanswered item (score 0) adds nothing. The first
  category has 11 items; when exactly two of its 5-level items are answered, one with raw 1
  and one with raw 3, and nothing else in the checklist is answered, the category average is
  4 and the total score is 8.
\<close>

theorem totalScore_plain_sum:
  fixes ev :: "int dict"
  shows "saveEvaluationRecord_totalScore ev e =
           (\<Sum>c<length categories. \<Sum>k<length (items (categories ! c)). getEvaluationScore ev e c k) \<and>
         finalizeDraft_totalScore ev e =
           (\<Sum>c<length categories. \<Sum>k<length (items (categories ! c)). getEvaluationScore ev e c k) \<and>
         length (items (categories ! 0)) = 11 \<and>
         (i \<noteq> j \<and> categoryItem 0 i = Some item_i \<and> categoryItem 0 j = Some item_j \<and>
          type item_i \<in> {radio_5_level, radio_5_level_with_sub_check} \<and>
          type item_j \<in> {radio_5_level, radio_5_level_with_sub_check} \<and>
          getEvaluation ev e 0 i = 1 \<and> getEvaluation ev e 0 j = 3 \<and>
          (\<forall>(c, k) \<in> set allItems. (c, k) \<noteq> (0, i) \<and> (c, k) \<noteq> (0, j) \<longrightarrow>
             getEvaluation ev e c k = 0) \<longrightarrow>
          calculateCategoryAverage ev 0 e = Inr 4 \<and>
          saveEvaluationRecord_totalScore ev e = 8 \<and>
          finalizeDraft_totalScore ev e = 8)"
proof (intro conjI impI)
  show "saveEvaluationRecord_totalScore ev e =
      (\<Sum>c<length categories. \<Sum>k<length (items (categories ! c)). getEvaluationScore ev e c k)"
    by (rule saveEvaluationRecord_totalScore_sum)
  then show "finalizeDraft_totalScore ev e =
      (\<Sum>c<length categories. \<Sum>k<length (items (categories ! c)). getEvaluationScore ev e c k)"
    by (simp only: finalizeDraft_totalScore_eq)
  show "length (items (categories ! 0)) = 11"
    by (simp add: items_categories length_items)
next
  assume h: "i \<noteq> j \<and> categoryItem 0 i = Some item_i \<and> categoryItem 0 j = Some item_j \<and>
          type item_i \<in> {radio_5_level, radio_5_level_with_sub_check} \<and>
          type item_j \<in> {radio_5_level, radio_5_level_with_sub_check} \<and>
          getEvaluation ev e 0 i = 1 \<and> getEvaluation ev e 0 j = 3 \<and>
          (\<forall>(c, k) \<in> set allItems. (c, k) \<noteq> (0, i) \<and> (c, k) \<noteq> (0, j) \<longrightarrow>
             getEvaluation ev e c k = 0)"
  let ?n = "length (items (categories ! 0))"
  let ?f = "\<lambda>c k. getEvaluationScore ev e c k"
  have c0: "0 < length categories" by (simp add: length_categories)
  from h have ij: "i \<noteq> j" by simp
  from h have i: "i < ?n" and j: "j < ?n"
    by (auto simp: categoryItem_def Let_def split: if_splits)
  from h have fi: "?f 0 i = 5" and fj: "?f 0 j = 3"
    by (auto simp: score_five_level)
  have other: "?f c k = 0"
    if "c < length categories" "k < length (items (categories ! c))" "(c, k) \<noteq> (0, i)" "(c, k) \<noteq> (0, j)"
    for c k
  proof -
    from that(1,2) have "(c, k) \<in> set allItems" by (simp add: allItems_set)
    with h that(3,4) have "getEvaluation ev e c k = 0" by blast
    then show ?thesis by (rule score_unanswered)
  qed
  have other0: "?f 0 k = 0" if "k < ?n" "k \<noteq> i" "k \<noteq> j" for k
    using other [OF c0 that(1)] that(2,3) by simp
  have s0: "sum (?f 0) {..<?n} = 8"
    using sum_two_nonzero [of i ?n j "?f 0", OF i j ij other0] fi fj by simp
  have s1: "sum (?f 1) {..<length (items (categories ! 1))} = 0"
    by (rule sum_all_zero, rule other) (simp_all add: length_categories)
  have s2: "sum (?f 2) {..<length (items (categories ! 2))} = 0"
    by (rule sum_all_zero, rule other) (simp_all add: length_categories)
  have three: "{..<3::nat} = {0, 1, 2}" by auto
  show total: "saveEvaluationRecord_totalScore ev e = 8"
    unfolding saveEvaluationRecord_totalScore_sum length_categories three
    using s0 s1 s2 by simp
  then show "finalizeDraft_totalScore ev e = 8"
    by (simp only: finalizeDraft_totalScore_eq)
  have nonneg: "0 \<le> ?f 0 k" if "k < ?n" for k
    using other0 [OF that] fi fj by (cases "k = i"; cases "k = j") simp_all
  have len: "length (filter (\<lambda>k. 0 < ?f 0 k) [0..<?n]) = 2"
    by (rule length_filter_two [OF i j ij _ _ other0]) (simp_all add: fi fj)
  have sm: "(\<Sum>k\<leftarrow>filter (\<lambda>k. 0 < ?f 0 k) [0..<?n]. ?f 0 k) = 8"
    using sum_list_filter_pos [of ?n "?f 0", OF nonneg] s0 by simp
  have ne: "filter (\<lambda>k. 0 < ?f 0 k) [0..<?n] \<noteq> []"
    using len by auto
  show "calculateCategoryAverage ev 0 e = Inr 4"
    unfolding calculateCategoryAverage_eq [OF c0] Let_def
    by (simp only: ne if_False len sm) (simp add: Math_round_numeral)
qed

theorem totalScore_plain_sum_witness:
  "calculateCategoryAverage [(''staff-0-0'', 1), (''staff-0-1'', 3)] 0 Staff = Inr 4 \<and>
   saveEvaluationRecord_totalScore [(''staff-0-0'', 1), (''staff-0-1'', 3)] Staff = 8 \<and>
   finalizeDraft_totalScore [(''staff-0-0'', 1), (''staff-0-1'', 3)] Staff = 8"
proof -
  let ?ev = "[(''staff-0-0'', 1), (''staff-0-1'', 3)] :: int dict"
  let ?i0 = "\<lparr>CategoryItem.id = ''I-1'', type = radio_5_level, optionCount = 5\<rparr>"
  let ?i1 = "\<lparr>CategoryItem.id = ''I-2'', type = radio_5_level, optionCount = 5\<rparr>"
  have i0: "categoryItem 0 0 = Some ?i0" by code_simp
  have i1: "categoryItem 0 1 = Some ?i1" by code_simp
  have r0: "getEvaluation ?ev Staff 0 0 = 1" by code_simp
  have r1: "getEvaluation ?ev Staff 0 1 = 3" by code_simp
  have "list_all (\<lambda>(c, k). (c, k) \<noteq> (0, 0) \<and> (c, k) \<noteq> (0, 1) \<longrightarrow>
            getEvaluation ?ev Staff c k = 0) allItems"
    by code_simp
  then have rest: "\<forall>(c, k) \<in> set allItems. (c, k) \<noteq> (0, 0) \<and> (c, k) \<noteq> (0, 1) \<longrightarrow>
            getEvaluation ?ev Staff c k = 0"
    by (simp add: list_all_iff)
  have hyp: "(0::nat) \<noteq> 1 \<and> categoryItem 0 0 = Some ?i0 \<and> categoryItem 0 1 = Some ?i1 \<and>
          type ?i0 \<in> {radio_5_level, radio_5_level_with_sub_check} \<and>
          type ?i1 \<in> {radio_5_level, radio_5_level_with_sub_check} \<and>
          getEvaluation ?ev Staff 0 0 = 1 \<and> getEvaluation ?ev Staff 0 1 = 3 \<and>
          (\<forall>(c, k) \<in> set allItems. (c, k) \<noteq> (0, 0) \<and> (c, k) \<noteq> (0, 1) \<longrightarrow>
             getEvaluation ?ev Staff c k = 0)"
    using i0 i1 r0 r1 rest by simp
  from totalScore_plain_sum [of ?ev Staff 0 1 ?i0 ?i1] hyp show ?thesis
    by blast
qed

section \<open>Out-of-domain responses\<close>

text \<open>
  Claim C8 (as amended). \<open>getEvaluationScore\<close> has no failure branch and does not check
  its input. For a raw response inside the item's domain it returns a score from 0 to 5;
  for one outside the domain it silently returns a number: 1 on a 2-level item, and
  \<open>6 - raw\<close> on a 5-level item (0 for raw 6, 7 for raw -1).
\<close>

theorem getEvaluationScore_unchecked:
  assumes "categoryItem c i = Some item"
  shows "(inDomain item (getEvaluation ev e c i) \<longrightarrow>
            0 \<le> getEvaluationScore ev e c i \<and> getEvaluationScore ev e c i \<le> 5) \<and>
         (\<not> inDomain item (getEvaluation ev e c i) \<longrightarrow>
            getEvaluationScore ev e c i =
              (if type item = radio_2_level_with_sub_check then 1
               else 6 - getEvaluation ev e c i))"
proof -
  from assms have c: "c < length categories" and i: "i < length (items (categories ! c))"
    and item: "item = items (categories ! c) ! i"
    by (auto simp: categoryItem_def Let_def split: if_splits)
  from items_table [OF c i] item
  have t: "(type item = radio_2_level_with_sub_check \<and> optionCount item = 2) \<or>
           (type item \<noteq> radio_2_level_with_sub_check \<and> optionCount item = 5)"
    by simp
  then show ?thesis
    using assms by (auto simp: getEvaluationScore_def inDomain_def Let_def)
qed

theorem getEvaluationScore_unchecked_witness:
  "getEvaluationScore [(''staff-0-0'', 6)] Staff 0 0 = 0 \<and>
   getEvaluationScore [(''staff-0-0'', 2)] Staff 0 0 \<le> 5"
proof -
  let ?i0 = "\<lparr>CategoryItem.id = ''I-1'', type = radio_5_level, optionCount = 5\<rparr>"
  have i0: "categoryItem 0 0 = Some ?i0" by code_simp
  have r6: "getEvaluation [(''staff-0-0'', 6)] Staff 0 0 = 6" by code_simp
  have r2: "getEvaluation [(''staff-0-0'', 2)] Staff 0 0 = 2" by code_simp
  have out: "\<not> inDomain ?i0 6" by (simp add: inDomain_def)
  have inn: "inDomain ?i0 2" by (simp add: inDomain_def)
  have 1: "getEvaluationScore [(''staff-0-0'', 6)] Staff 0 0 = 0"
    using getEvaluationScore_unchecked [OF i0, of "[(''staff-0-0'', 6)]" Staff] out
    unfolding r6 by simp
  have 2: "getEvaluationScore [(''staff-0-0'', 2)] Staff 0 0 \<le> 5"
    using getEvaluationScore_unchecked [OF i0, of "[(''staff-0-0'', 2)]" Staff] inn
    unfolding r2 by simp
  from 1 2 show ?thesis by simp
qed

text \<open>
  The claim as stated, that an out-of-domain response is rejected rather than scored, fails
  on the first item with raw 6 and raw -1, and on the 2-level item with raw 3: each gets a
  score.
\<close>

theorem getEvaluationScore_fail_fast_counterexample:
  "categoryItem 0 0 = Some \<lparr>CategoryItem.id = ''I-1'', type = radio_5_level, optionCount = 5\<rparr> \<and>
   \<not> inDomain \<lparr>CategoryItem.id = ''I-1'', type = radio_5_level, optionCount = 5\<rparr> 6 \<and>
   \<not> inDomain \<lparr>CategoryItem.id = ''I-1'', type = radio_5_level, optionCount = 5\<rparr> (- 1) \<and>
   getEvaluation [(''staff-0-0'', 6)] Staff 0 0 = 6 \<and>
   getEvaluationScore [(''staff-0-0'', 6)] Staff 0 0 = 0 \<and>
   getEvaluation [(''staff-0-0'', - 1)] Staff 0 0 = - 1 \<and>
   getEvaluationScore [(''staff-0-0'', - 1)] Staff 0 0 = 7 \<and>
   categoryItem 0 10 =
     Some \<lparr>CategoryItem.id = ''I-11'', type = radio_2_level_with_sub_check, optionCount = 2\<rparr> \<and>
   \<not> inDomain \<lparr>CategoryItem.id = ''I-11'', type = radio_2_level_with_sub_check, optionCount = 2\<rparr> 3 \<and>
   getEvaluation [(''staff-0-10'', 3)] Staff 0 10 = 3 \<and>
   getEvaluationScore [(''staff-0-10'', 3)] Staff 0 10 = 1"
  by code_simp

section \<open>The two save paths compared\<close>

text \<open>
  Claim C2. \<open>finalizeDraft\<close> recomputes both derived fields from the draft's raw
  responses, and its total equals the direct save's; its category averages are not rounded,
  unlike those of \<open>calculateCategoryAverage\<close>. For the responses 1, 1, 2 on the first
  three items the scores are 5, 5, 4: \<open>finalizeDraft\<close> stores 14/3 for the first
  category, the direct save stores 4.67.
\<close>

theorem finalizeDraft_average_unrounded:
  "finalizeDraft_categoryScores [(''staff-0-0'', 1), (''staff-0-1'', 1), (''staff-0-2'', 2)] Staff =
     [(name_I, 14 / 3), (name_II, 0), (name_III, 0)] \<and>
   saveEvaluationRecord_categoryScores [(''staff-0-0'', 1), (''staff-0-1'', 1), (''staff-0-2'', 2)] Staff =
     Inr [(name_I, 467 / 100), (name_II, 0), (name_III, 0)] \<and>
   finalizeDraft_totalScore [(''staff-0-0'', 1), (''staff-0-1'', 1), (''staff-0-2'', 2)] Staff = 14 \<and>
   saveEvaluationRecord_totalScore [(''staff-0-0'', 1), (''staff-0-1'', 1), (''staff-0-2'', 2)] Staff = 14"
  by code_simp

section \<open>Store operations\<close>

lemma length_filter_eq_iff: "length (filter P xs) = length xs \<longleftrightarrow> filter P xs = xs"
proof
  assume "length (filter P xs) = length xs"
  then show "filter P xs = xs"
  proof (induction xs)
    case Nil
    then show ?case by simp
  next
    case (Cons x xs)
    show ?case
    proof (cases "P x")
      case True
      with Cons show ?thesis by simp
    next
      case False
      with Cons.prems have "length (filter P xs) = Suc (length xs)" by simp
      moreover have "length (filter P xs) \<le> length xs" by (rule length_filter_le)
      ultimately show ?thesis by linarith
    qed
  qed
qed simp

text \<open>
  Claim C7. Deleting a support target that exists returns true, removes the targets with that
  id and every evaluation record whose \<open>targetId\<close> is that id, and keeps every other
  target and record in place; drafts and goals, also those of the deleted target, are left
  as they were. Deleting an id no target has returns false and changes nothing.
\<close>

theorem deleteSupportTarget_cascade:
  "DataService_deleteSupportTarget tid s =
     (if tid \<in> SupportTarget.id ` set (supportTargets s)
      then (True,
            s\<lparr>supportTargets := filter (\<lambda>t. SupportTarget.id t \<noteq> tid) (supportTargets s),
              evaluationRecords :=
                filter (\<lambda>r. EvaluationRecord.targetId r \<noteq> tid) (evaluationRecords s)\<rparr>)
      else (False, s)) \<and>
   evaluationDrafts (snd (DataService_deleteSupportTarget tid s)) = evaluationDrafts s \<and>
   supportGoals (snd (DataService_deleteSupportTarget tid s)) = supportGoals s"
proof -
  have "filter (\<lambda>t. SupportTarget.id t \<noteq> tid) (supportTargets s) = supportTargets s \<longleftrightarrow>
        tid \<notin> SupportTarget.id ` set (supportTargets s)"
    by (auto simp: filter_id_conv)
  then show ?thesis
    by (simp add: DataService_deleteSupportTarget_def
        DataService_deleteEvaluationRecordsByTarget_def Let_def length_filter_eq_iff)
qed

text \<open>
  Claim C10. \<open>DataService.saveEvaluationRecord\<close> always appends one record, with the
  generated id and the input's target, date and evaluator, after the records already
  stored, and touches no other collection. It never looks for a record of the same target,
  date and evaluator: a second save puts a second record behind the first, so saving the
  same input twice raises the number of records of that triple by two.
\<close>

theorem saveEvaluationRecord_appends:
  "evaluationRecords (snd (DataService_saveEvaluationRecord env r s)) =
     evaluationRecords s @ [fst (DataService_saveEvaluationRecord env r s)] \<and>
   EvaluationRecord.id (fst (DataService_saveEvaluationRecord env r s)) =
     ''eval_'' @ string_of_nat (nowMs env) @ ''_'' @ random36 env \<and>
   EvaluationRecord.targetId (fst (DataService_saveEvaluationRecord env r s)) =
     EvaluationRecordInput.targetId r \<and>
   EvaluationRecord.evaluationDate (fst (DataService_saveEvaluationRecord env r s)) =
     EvaluationRecordInput.evaluationDate r \<and>
   EvaluationRecord.evaluator (fst (DataService_saveEvaluationRecord env r s)) =
     EvaluationRecordInput.evaluator r \<and>
   supportTargets (snd (DataService_saveEvaluationRecord env r s)) = supportTargets s \<and>
   evaluationDrafts (snd (DataService_saveEvaluationRecord env r s)) = evaluationDrafts s \<and>
   supportGoals (snd (DataService_saveEvaluationRecord env r s)) = supportGoals s \<and>
   evaluationRecords
     (snd (DataService_saveEvaluationRecord env' r'
        (snd (DataService_saveEvaluationRecord env r s)))) =
     evaluationRecords s @
       [fst (DataService_saveEvaluationRecord env r s),
        fst (DataService_saveEvaluationRecord env' r' (snd (DataService_saveEvaluationRecord env r s)))] \<and>
   length (filter (\<lambda>x. EvaluationRecord.targetId x = EvaluationRecordInput.targetId r \<and>
                       EvaluationRecord.evaluationDate x = EvaluationRecordInput.evaluationDate r \<and>
                       EvaluationRecord.evaluator x = EvaluationRecordInput.evaluator r)
       (evaluationRecords
          (snd (DataService_saveEvaluationRecord env' r
             (snd (DataService_saveEvaluationRecord env r s)))))) =
     length (filter (\<lambda>x. EvaluationRecord.targetId x = EvaluationRecordInput.targetId r \<and>
                       EvaluationRecord.evaluationDate x = EvaluationRecordInput.evaluationDate r \<and>
                       EvaluationRecord.evaluator x = EvaluationRecordInput.evaluator r)
       (evaluationRecords s)) + 2"
  by (simp add: DataService_saveEvaluationRecord_def Let_def)

lemma foldl_count_enumerate:
  fixes g :: "nat \<Rightarrow> 'a \<Rightarrow> int"
  shows "foldl (\<lambda>(t, n) (k, x). if P k x then (t + g k x, n + 1) else (t, n)) (t0, n0 :: nat)
           (enumerate 0 xs) =
         (t0 + (\<Sum>k\<leftarrow>filter (\<lambda>k. P k (xs ! k)) [0..<length xs]. g k (xs ! k)),
          n0 + length (filter (\<lambda>k. P k (xs ! k)) [0..<length xs]))"
proof (induction xs rule: rev_induct)
  case Nil
  then show ?case by simp
next
  case (snoc x xs)
  have f: "filter (\<lambda>k. P k ((xs @ [x]) ! k)) [0..<length xs] =
           filter (\<lambda>k. P k (xs ! k)) [0..<length xs]"
    by (rule filter_cong [OF refl]) (simp add: nth_append)
  have m: "map (\<lambda>k. g k ((xs @ [x]) ! k)) (filter (\<lambda>k. P k (xs ! k)) [0..<length xs]) =
           map (\<lambda>k. g k (xs ! k)) (filter (\<lambda>k. P k (xs ! k)) [0..<length xs])"
    by (rule map_cong [OF refl]) (simp add: nth_append)
  show ?case
    by (simp add: enumerate_append_eq snoc.IH f m)
qed

lemma finalizeDraft_category_step:
  assumes "c < length categories"
  shows "foldl (\<lambda>(catTotal, catCount) (itemIndex, item).
           let key = evaluationKey who c itemIndex;
               rawScore = (case map_of evals key of None \<Rightarrow> 0 | Some v \<Rightarrow> v)
           in if rawScore > 0
              then (catTotal +
                      (if type item = radio_2_level_with_sub_check
                       then (if rawScore = 1 then 2 else 1)
                       else 6 - rawScore),
                    catCount + 1)
              else (catTotal, catCount))
          (0 :: int, 0 :: nat) (enumerate 0 (items (categories ! c))) =
         foldl (\<lambda>(t, n) (k, x). if 0 < getEvaluation evals who c k
                 then (t + getEvaluationScore evals who c k, n + 1) else (t, n))
          (0, 0) (enumerate 0 (items (categories ! c)))"
proof (rule foldl_cong [OF refl refl])
  fix a :: "int \<times> nat" and x
  assume x: "x \<in> set (enumerate 0 (items (categories ! c)))"
  obtain k item where kx: "x = (k, item)" by (cases x)
  obtain t n where a: "a = (t, n)" by (cases a)
  from x kx assms have "categoryItem c k = Some item" by (simp add: categoryItem_enumerate)
  then show "(case a of (catTotal, catCount) \<Rightarrow> \<lambda>(itemIndex, item).
           let key = evaluationKey who c itemIndex;
               rawScore = (case map_of evals key of None \<Rightarrow> 0 | Some v \<Rightarrow> v)
           in if rawScore > 0
              then (catTotal +
                      (if type item = radio_2_level_with_sub_check
                       then (if rawScore = 1 then 2 else 1)
                       else 6 - rawScore),
                    catCount + 1)
              else (catTotal, catCount)) x =
         (case a of (t, n) \<Rightarrow> \<lambda>(k, x). if 0 < getEvaluation evals who c k
                 then (t + getEvaluationScore evals who c k, n + 1) else (t, n)) x"
    by (simp add: kx a getEvaluationScore_def getEvaluation_def Let_def)
qed

lemma finalizeDraft_category_mean:
  assumes "c < length categories"
  shows "finalizeDraft_category evals who c (categories ! c) =
     (let answered = filter (\<lambda>k. 0 < getEvaluation evals who c k)
                       [0..<length (items (categories ! c))]
      in if answered = [] then 0
         else of_int (\<Sum>k\<leftarrow>answered. getEvaluationScore evals who c k)
                / of_nat (length answered))"
  unfolding finalizeDraft_category_def finalizeDraft_category_step [OF assms]
    foldl_count_enumerate
  by (simp add: Let_def)

lemma category_names_distinct:
  "name_I \<noteq> name_II" "name_I \<noteq> name_III" "name_II \<noteq> name_III"
  by (simp_all add: name_I_def name_II_def name_III_def)

lemma finalizeDraft_categoryScores_map:
  "finalizeDraft_categoryScores evals who =
     map (\<lambda>(c, category). (name category, finalizeDraft_category evals who c category))
       (enumerate 0 categories)"
  unfolding finalizeDraft_categoryScores_def enumerate_categories
  using category_names_distinct by (simp add: categories_def)

lemma deleteEvaluationDraft_store:
  "snd (DataService_deleteEvaluationDraft draftId s) =
     s\<lparr>evaluationDrafts := filter (\<lambda>d. EvaluationDraft.id d \<noteq> draftId) (evaluationDrafts s)\<rparr>"
proof (cases "filter (\<lambda>d. EvaluationDraft.id d \<noteq> draftId) (evaluationDrafts s) = evaluationDrafts s")
  case True
  then show ?thesis
    by (simp add: DataService_deleteEvaluationDraft_def Let_def)
next
  case False
  then show ?thesis
    by (simp add: DataService_deleteEvaluationDraft_def Let_def length_filter_eq_iff)
qed

lemma finalizeDraft_categoryScores_index:
  "finalizeDraft_categoryScores evals who =
     map (\<lambda>c. (name (categories ! c),
        (let answered = filter (\<lambda>k. 0 < getEvaluation evals who c k)
                          [0..<length (items (categories ! c))]
         in if answered = [] then 0
            else of_int (\<Sum>k\<leftarrow>answered. getEvaluationScore evals who c k)
                   / of_nat (length answered))))
       [0..<length categories]"
proof -
  have c: "0 < length categories" "1 < length categories" "2 < length categories"
    by (simp_all add: length_categories)
  have u: "[0..<3] = [0, 1, 2]" by (simp add: upt_rec)
  show ?thesis
    unfolding finalizeDraft_categoryScores_map enumerate_categories length_categories u
    by (simp only: list.map prod.case finalizeDraft_category_mean [OF c(1)]
        finalizeDraft_category_mean [OF c(2)] finalizeDraft_category_mean [OF c(3)])
qed

text \<open>
  Claim C6. When a draft with the given id exists, \<open>finalizeDraft\<close> appends exactly one
  record, which carries the draft's target, date, evaluator and raw responses, whose total
  is the sum of the scores of all items computed from those responses and whose category
  scores are the means of the scores of the answered items, and it removes the drafts with
  that id; when no draft has the id it changes nothing. Either way no draft with that id is
  left, and targets and goals are untouched.
\<close>

theorem finalizeDraft_effect:
  "finalizeDraft env draftId s =
     (case find (\<lambda>d. EvaluationDraft.id d = draftId) (evaluationDrafts s) of
        None \<Rightarrow> (None, s)
      | Some draft \<Rightarrow>
          (let newRecord =
                 \<lparr>EvaluationRecord.id = ''eval_'' @ string_of_nat (nowMs env) @ ''_'' @ random36 env,
                  targetId = EvaluationDraft.targetId draft,
                  targetName = EvaluationDraft.targetName draft,
                  evaluationDate = EvaluationDraft.evaluationDate draft,
                  evaluator = EvaluationDraft.evaluator draft,
                  evaluations = EvaluationDraft.evaluations draft,
                  subChecks = EvaluationDraft.subChecks draft,
                  comments = EvaluationDraft.comments draft,
                  totalScore =
                    (\<Sum>c<length categories. \<Sum>k<length (items (categories ! c)).
                       getEvaluationScore (EvaluationDraft.evaluations draft)
                         (EvaluationDraft.evaluator draft) c k),
                  categoryScores =
                    map (\<lambda>c. (name (categories ! c),
                       (let answered =
                              filter (\<lambda>k. 0 < getEvaluation (EvaluationDraft.evaluations draft)
                                               (EvaluationDraft.evaluator draft) c k)
                                [0..<length (items (categories ! c))]
                        in if answered = [] then 0
                           else of_int (\<Sum>k\<leftarrow>answered.
                                   getEvaluationScore (EvaluationDraft.evaluations draft)
                                     (EvaluationDraft.evaluator draft) c k)
                                  / of_nat (length answered))))
                      [0..<length categories],
                  createdAt = nowISO env,
                  updatedAt = nowISO env\<rparr>
           in (Some newRecord,
               s\<lparr>evaluationRecords := evaluationRecords s @ [newRecord],
                 evaluationDrafts :=
                   filter (\<lambda>d. EvaluationDraft.id d \<noteq> draftId) (evaluationDrafts s)\<rparr>))) \<and>
   draftId \<notin> EvaluationDraft.id ` set (evaluationDrafts (snd (finalizeDraft env draftId s))) \<and>
   supportTargets (snd (finalizeDraft env draftId s)) = supportTargets s \<and>
   supportGoals (snd (finalizeDraft env draftId s)) = supportGoals s"
proof (cases "find (\<lambda>d. EvaluationDraft.id d = draftId) (evaluationDrafts s)")
  case None
  then have "draftId \<notin> EvaluationDraft.id ` set (evaluationDrafts s)"
    by (auto simp: find_None_iff)
  with None show ?thesis
    by (simp add: finalizeDraft_def DataService_loadEvaluationDraft_def)
next
  case (Some draft)
  show ?thesis
    unfolding finalizeDraft_def DataService_loadEvaluationDraft_def Some option.case
      finalizeDraft_totalScore_eq saveEvaluationRecord_totalScore_sum
      finalizeDraft_categoryScores_index DataService_saveEvaluationRecord_def
    by (auto simp add: Let_def case_prod_beta deleteEvaluationDraft_store)
qed

section \<open>Draft upsert\<close>

lemma findIndex_None: "findIndex P xs = None \<longleftrightarrow> (\<forall>x\<in>set xs. \<not> P x)"
  by (induction xs) auto

lemma findIndex_Some:
  "findIndex P xs = Some i \<Longrightarrow> i < length xs \<and> P (xs ! i) \<and> (\<forall>j<i. \<not> P (xs ! j))"
proof (induction xs arbitrary: i)
  case Nil
  then show ?case by simp
next
  case (Cons x xs)
  show ?case
  proof (cases "P x")
    case True
    with Cons.prems show ?thesis by simp
  next
    case False
    with Cons.prems obtain i' where i': "findIndex P xs = Some i'" "i = Suc i'"
      by auto
    from Cons.IH [OF i'(1)] False i'(2) show ?thesis
      by (auto simp: less_Suc_eq_0_disj)
  qed
qed

lemma distinct_filter_key:
  assumes "distinct (map f xs)" "x \<in> set xs"
  shows "filter (\<lambda>y. f y = f x) xs = [x]"
  using assms
proof (induction xs)
  case Nil
  then show ?case by simp
next
  case (Cons y ys)
  show ?case
  proof (cases "x = y")
    case True
    from Cons.prems(1) have "f y \<notin> f ` set ys" by simp
    with True have "\<forall>z\<in>set ys. f z \<noteq> f x" by (metis image_eqI)
    then have "filter (\<lambda>z. f z = f x) ys = []"
      by (simp add: filter_empty_conv)
    with True show ?thesis by simp
  next
    case False
    with Cons.prems have "x \<in> set ys" "f y \<noteq> f x" by auto
    with Cons show ?thesis by simp
  qed
qed

lemma saveEvaluationDraft_cases:
  fixes env draft s
  defines "ds \<equiv> evaluationDrafts s"
  defines "merged \<equiv> \<lambda>old.
      \<lparr>EvaluationDraft.id = EvaluationDraft.id old,
       targetId = EvaluationDraftInput.targetId draft,
       targetName = EvaluationDraftInput.targetName draft,
       evaluationDate = EvaluationDraftInput.evaluationDate draft,
       evaluator = EvaluationDraftInput.evaluator draft,
       evaluations = EvaluationDraftInput.evaluations draft,
       subChecks = EvaluationDraftInput.subChecks draft,
       comments = EvaluationDraftInput.comments draft,
       completionRate = EvaluationDraftInput.completionRate draft,
       lastSaved = nowISO env,
       createdAt = EvaluationDraft.createdAt old,
       updatedAt = nowISO env\<rparr>"
  defines "fresh \<equiv>
      \<lparr>EvaluationDraft.id = ''draft_'' @ string_of_nat (nowMs env) @ ''_'' @ random36 env,
       targetId = EvaluationDraftInput.targetId draft,
       targetName = EvaluationDraftInput.targetName draft,
       evaluationDate = EvaluationDraftInput.evaluationDate draft,
       evaluator = EvaluationDraftInput.evaluator draft,
       evaluations = EvaluationDraftInput.evaluations draft,
       subChecks = EvaluationDraftInput.subChecks draft,
       comments = EvaluationDraftInput.comments draft,
       completionRate = EvaluationDraftInput.completionRate draft,
       lastSaved = nowISO env,
       createdAt = nowISO env,
       updatedAt = nowISO env\<rparr>"
  shows "DataService_saveEvaluationDraft env draft s =
     (case findIndex (\<lambda>d. draftKey d = draftInputKey draft) ds of
        Some i \<Rightarrow> (merged (ds ! i), s\<lparr>evaluationDrafts := ds[i := merged (ds ! i)]\<rparr>)
      | None \<Rightarrow> (fresh, s\<lparr>evaluationDrafts := ds @ [fresh]\<rparr>))"
proof -
  have k: "(\<lambda>d. EvaluationDraft.targetId d = EvaluationDraftInput.targetId draft \<and>
                EvaluationDraft.evaluationDate d = EvaluationDraftInput.evaluationDate draft \<and>
                EvaluationDraft.evaluator d = EvaluationDraftInput.evaluator draft) =
           (\<lambda>d. draftKey d = draftInputKey draft)"
    by (auto simp: draftKey_def draftInputKey_def)
  have m: "old
      \<lparr>EvaluationDraft.targetId := EvaluationDraftInput.targetId draft,
       EvaluationDraft.targetName := EvaluationDraftInput.targetName draft,
       EvaluationDraft.evaluationDate := EvaluationDraftInput.evaluationDate draft,
       EvaluationDraft.evaluator := EvaluationDraftInput.evaluator draft,
       EvaluationDraft.evaluations := EvaluationDraftInput.evaluations draft,
       EvaluationDraft.subChecks := EvaluationDraftInput.subChecks draft,
       EvaluationDraft.comments := EvaluationDraftInput.comments draft,
       EvaluationDraft.completionRate := EvaluationDraftInput.completionRate draft,
       EvaluationDraft.updatedAt := nowISO env,
       EvaluationDraft.lastSaved := nowISO env\<rparr> = merged old" for old :: EvaluationDraft
    unfolding merged_def by (cases old) simp
  show ?thesis
    unfolding DataService_saveEvaluationDraft_def k Let_def m ds_def [symmetric] fresh_def
    by (rule refl)
qed

lemma draftKey_saved:
  "draftKey (fst (DataService_saveEvaluationDraft env d s)) = draftInputKey d"
  unfolding saveEvaluationDraft_cases
  by (simp add: draftKey_def draftInputKey_def split: option.split)

lemma saveEvaluationDraft_frame:
  "supportTargets (snd (DataService_saveEvaluationDraft env d s)) = supportTargets s"
  "evaluationRecords (snd (DataService_saveEvaluationDraft env d s)) = evaluationRecords s"
  "supportGoals (snd (DataService_saveEvaluationDraft env d s)) = supportGoals s"
  unfolding saveEvaluationDraft_cases by (simp_all split: option.split)

lemma saveEvaluationDraft_fields:
  fixes env d s
  defines "saved \<equiv> fst (DataService_saveEvaluationDraft env d s)"
  shows "EvaluationDraft.targetId saved = EvaluationDraftInput.targetId d"
    and "EvaluationDraft.targetName saved = EvaluationDraftInput.targetName d"
    and "EvaluationDraft.evaluationDate saved = EvaluationDraftInput.evaluationDate d"
    and "EvaluationDraft.evaluator saved = EvaluationDraftInput.evaluator d"
    and "EvaluationDraft.evaluations saved = EvaluationDraftInput.evaluations d"
    and "EvaluationDraft.subChecks saved = EvaluationDraftInput.subChecks d"
    and "EvaluationDraft.comments saved = EvaluationDraftInput.comments d"
    and "EvaluationDraft.completionRate saved = EvaluationDraftInput.completionRate d"
    and "EvaluationDraft.lastSaved saved = nowISO env"
    and "EvaluationDraft.updatedAt saved = nowISO env"
  unfolding saved_def saveEvaluationDraft_cases by (simp_all split: option.split)

lemma saveEvaluationDraft_fresh:
  assumes "draftInputKey d \<notin> draftKey ` set (evaluationDrafts s)"
  shows "evaluationDrafts (snd (DataService_saveEvaluationDraft env d s)) =
           evaluationDrafts s @ [fst (DataService_saveEvaluationDraft env d s)]"
    and "EvaluationDraft.id (fst (DataService_saveEvaluationDraft env d s)) =
           ''draft_'' @ string_of_nat (nowMs env) @ ''_'' @ random36 env"
    and "EvaluationDraft.createdAt (fst (DataService_saveEvaluationDraft env d s)) = nowISO env"
proof -
  from assms have "findIndex (\<lambda>x. draftKey x = draftInputKey d) (evaluationDrafts s) = None"
    unfolding findIndex_None by (metis image_eqI)
  then show "evaluationDrafts (snd (DataService_saveEvaluationDraft env d s)) =
           evaluationDrafts s @ [fst (DataService_saveEvaluationDraft env d s)]"
    and "EvaluationDraft.id (fst (DataService_saveEvaluationDraft env d s)) =
           ''draft_'' @ string_of_nat (nowMs env) @ ''_'' @ random36 env"
    and "EvaluationDraft.createdAt (fst (DataService_saveEvaluationDraft env d s)) = nowISO env"
    unfolding saveEvaluationDraft_cases by simp_all
qed

lemma saveEvaluationDraft_existing:
  fixes env :: Env
  assumes inv: "distinct (map draftKey (evaluationDrafts s))"
    and ex: "draftInputKey d \<in> draftKey ` set (evaluationDrafts s)"
  defines "ds \<equiv> evaluationDrafts s"
  defines "saved \<equiv> fst (DataService_saveEvaluationDraft env d s)"
  defines "ds1 \<equiv> evaluationDrafts (snd (DataService_saveEvaluationDraft env d s))"
  shows "length ds1 = length ds"
    and "\<And>j. j < length ds \<Longrightarrow> draftKey (ds ! j) = draftInputKey d \<Longrightarrow>
           ds1 ! j = saved \<and> EvaluationDraft.id saved = EvaluationDraft.id (ds ! j) \<and>
           EvaluationDraft.createdAt saved = EvaluationDraft.createdAt (ds ! j)"
    and "\<And>j. j < length ds \<Longrightarrow> draftKey (ds ! j) \<noteq> draftInputKey d \<Longrightarrow> ds1 ! j = ds ! j"
proof -
  from ex obtain i where fi: "findIndex (\<lambda>x. draftKey x = draftInputKey d) ds = Some i"
    unfolding ds_def by (cases "findIndex (\<lambda>x. draftKey x = draftInputKey d) (evaluationDrafts s)")
      (auto simp: findIndex_None)
  from findIndex_Some [OF fi] have i: "i < length ds" and ki: "draftKey (ds ! i) = draftInputKey d"
    by simp_all
  have uniq: "j = i" if "j < length ds" "draftKey (ds ! j) = draftInputKey d" for j
  proof -
    from that ki i have "map draftKey ds ! j = map draftKey ds ! i" by simp
    moreover from inv have "distinct (map draftKey ds)" by (simp add: ds_def)
    ultimately show ?thesis
      using that(1) i nth_eq_iff_index_eq [of "map draftKey ds" j i] by simp
  qed
  have sv: "DataService_saveEvaluationDraft env d s =
      (saved, s\<lparr>evaluationDrafts := ds[i := saved]\<rparr>)"
    unfolding saved_def saveEvaluationDraft_cases ds_def [symmetric] fi by simp
  then have ds1: "ds1 = ds[i := saved]" by (simp add: ds1_def)
  have idc: "EvaluationDraft.id saved = EvaluationDraft.id (ds ! i) \<and>
             EvaluationDraft.createdAt saved = EvaluationDraft.createdAt (ds ! i)"
    unfolding saved_def saveEvaluationDraft_cases ds_def [symmetric] fi by simp
  show "length ds1 = length ds" by (simp add: ds1)
  show "ds1 ! j = saved \<and> EvaluationDraft.id saved = EvaluationDraft.id (ds ! j) \<and>
           EvaluationDraft.createdAt saved = EvaluationDraft.createdAt (ds ! j)"
    if "j < length ds" "draftKey (ds ! j) = draftInputKey d" for j
    using uniq [OF that] idc i by (simp add: ds1)
  show "ds1 ! j = ds ! j" if "j < length ds" "draftKey (ds ! j) \<noteq> draftInputKey d" for j
  proof -
    from that(2) ki have "j \<noteq> i" by auto
    then show ?thesis by (simp add: ds1)
  qed
qed

lemma saveEvaluationDraft_invariant:
  assumes inv: "distinct (map draftKey (evaluationDrafts s))"
  shows "distinct (map draftKey (evaluationDrafts (snd (DataService_saveEvaluationDraft env d s))))"
proof (cases "draftInputKey d \<in> draftKey ` set (evaluationDrafts s)")
  case False
  with inv show ?thesis
    by (simp add: saveEvaluationDraft_fresh(1) draftKey_saved)
next
  case True
  let ?ds = "evaluationDrafts s"
  let ?ds1 = "evaluationDrafts (snd (DataService_saveEvaluationDraft env d s))"
  note e = saveEvaluationDraft_existing [OF inv True, where env = env]
  have "map draftKey ?ds1 = map draftKey ?ds"
  proof (rule nth_equalityI)
    show "length (map draftKey ?ds1) = length (map draftKey ?ds)" using e(1) by simp
    fix j assume "j < length (map draftKey ?ds1)"
    then have j: "j < length ?ds" using e(1) by simp
    show "map draftKey ?ds1 ! j = map draftKey ?ds ! j"
    proof (cases "draftKey (?ds ! j) = draftInputKey d")
      case True
      with e(2) [OF j True] j e(1) show ?thesis by (simp add: draftKey_saved)
    next
      case False
      with e(3) [OF j False] j e(1) show ?thesis by simp
    qed
  qed
  with inv show ?thesis by simp
qed

lemma saveEvaluationDraft_member:
  assumes inv: "distinct (map draftKey (evaluationDrafts s))"
  shows "fst (DataService_saveEvaluationDraft env d s) \<in>
           set (evaluationDrafts (snd (DataService_saveEvaluationDraft env d s)))"
proof (cases "draftInputKey d \<in> draftKey ` set (evaluationDrafts s)")
  case False
  then show ?thesis by (simp add: saveEvaluationDraft_fresh(1))
next
  case True
  then obtain j where j: "j < length (evaluationDrafts s)"
      "draftKey (evaluationDrafts s ! j) = draftInputKey d"
    by (auto simp: in_set_conv_nth)
  note e = saveEvaluationDraft_existing [OF inv True, where env = env]
  from e(2) [OF j] e(1) j(1) show ?thesis
    by (metis nth_mem)
qed

lemma saveEvaluationDraft_single:
  assumes inv: "distinct (map draftKey (evaluationDrafts s))"
  shows "filter (\<lambda>x. draftKey x = draftInputKey d)
           (evaluationDrafts (snd (DataService_saveEvaluationDraft env d s))) =
         [fst (DataService_saveEvaluationDraft env d s)]"
proof -
  have "filter (\<lambda>x. draftKey x = draftKey (fst (DataService_saveEvaluationDraft env d s)))
           (evaluationDrafts (snd (DataService_saveEvaluationDraft env d s))) =
         [fst (DataService_saveEvaluationDraft env d s)]"
    by (rule distinct_filter_key [OF saveEvaluationDraft_invariant [OF inv]
          saveEvaluationDraft_member [OF inv]])
  then show ?thesis by (simp add: draftKey_saved)
qed

lemma saveEvaluationDraft_sequence:
  assumes "distinct (map draftKey (evaluationDrafts st))"
  shows "distinct (map draftKey (evaluationDrafts
           (foldl (\<lambda>st (e, x). snd (DataService_saveEvaluationDraft e x st)) st saves)))"
  using assms
proof (induction saves arbitrary: st)
  case Nil
  then show ?case by simp
next
  case (Cons p saves)
  obtain e x where p: "p = (e, x)" by (cases p)
  from Cons.prems have "distinct (map draftKey
      (evaluationDrafts (snd (DataService_saveEvaluationDraft e x st))))"
    by (rule saveEvaluationDraft_invariant)
  from Cons.IH [OF this] show ?case by (simp add: p)
qed

text \<open>
  Claim C5. If the stored drafts have pairwise different (target, date, evaluator) triples,
  they still do after \<open>saveEvaluationDraft\<close>, and exactly one stored draft has the saved
  triple: the returned one, which carries the saved data and the time of the save in
  \<open>lastSaved\<close> and \<open>updatedAt\<close>. When a draft of that triple was stored, the list keeps
  its length and every other draft its place, and the draft is replaced where it stood,
  with its old \<open>id\<close> and \<open>createdAt\<close>; otherwise the new draft is appended with a
  generated id. Two successive saves for one triple therefore leave one draft for it, with
  the second save's data and time and the first save's id and creation time; and whatever
  sequence of saves starts from the empty collection, no two stored drafts share a triple.
\<close>

theorem saveEvaluationDraft_upsert:
  fixes env env' :: Env and d d' :: EvaluationDraftInput and s :: Store
    and saves :: "(Env \<times> EvaluationDraftInput) list"
  assumes inv: "distinct (map draftKey (evaluationDrafts s))"
  defines "ds \<equiv> evaluationDrafts s"
  defines "saved \<equiv> fst (DataService_saveEvaluationDraft env d s)"
  defines "s1 \<equiv> snd (DataService_saveEvaluationDraft env d s)"
  defines "saved' \<equiv> fst (DataService_saveEvaluationDraft env' d' s1)"
  defines "s2 \<equiv> snd (DataService_saveEvaluationDraft env' d' s1)"
  shows "distinct (map draftKey (evaluationDrafts s1)) \<and>
         filter (\<lambda>x. draftKey x = draftInputKey d) (evaluationDrafts s1) = [saved] \<and>
         EvaluationDraft.targetName saved = EvaluationDraftInput.targetName d \<and>
         EvaluationDraft.evaluations saved = EvaluationDraftInput.evaluations d \<and>
         EvaluationDraft.subChecks saved = EvaluationDraftInput.subChecks d \<and>
         EvaluationDraft.comments saved = EvaluationDraftInput.comments d \<and>
         EvaluationDraft.completionRate saved = EvaluationDraftInput.completionRate d \<and>
         EvaluationDraft.lastSaved saved = nowISO env \<and>
         EvaluationDraft.updatedAt saved = nowISO env \<and>
         (draftInputKey d \<in> draftKey ` set ds \<longrightarrow>
            length (evaluationDrafts s1) = length ds \<and>
            (\<forall>j<length ds.
               if draftKey (ds ! j) = draftInputKey d
               then evaluationDrafts s1 ! j = saved \<and>
                    EvaluationDraft.id saved = EvaluationDraft.id (ds ! j) \<and>
                    EvaluationDraft.createdAt saved = EvaluationDraft.createdAt (ds ! j)
               else evaluationDrafts s1 ! j = ds ! j)) \<and>
         (draftInputKey d \<notin> draftKey ` set ds \<longrightarrow>
            evaluationDrafts s1 = ds @ [saved] \<and>
            EvaluationDraft.id saved =
              ''draft_'' @ string_of_nat (nowMs env) @ ''_'' @ random36 env \<and>
            EvaluationDraft.createdAt saved = nowISO env) \<and>
         (draftInputKey d' = draftInputKey d \<longrightarrow>
            filter (\<lambda>x. draftKey x = draftInputKey d) (evaluationDrafts s2) = [saved'] \<and>
            length (evaluationDrafts s2) = length (evaluationDrafts s1) \<and>
            EvaluationDraft.id saved' = EvaluationDraft.id saved \<and>
            EvaluationDraft.createdAt saved' = EvaluationDraft.createdAt saved \<and>
            EvaluationDraft.evaluations saved' = EvaluationDraftInput.evaluations d' \<and>
            EvaluationDraft.subChecks saved' = EvaluationDraftInput.subChecks d' \<and>
            EvaluationDraft.comments saved' = EvaluationDraftInput.comments d' \<and>
            EvaluationDraft.completionRate saved' = EvaluationDraftInput.completionRate d' \<and>
            EvaluationDraft.lastSaved saved' = nowISO env' \<and>
            EvaluationDraft.updatedAt saved' = nowISO env') \<and>
         supportTargets s1 = supportTargets s \<and>
         evaluationRecords s1 = evaluationRecords s \<and>
         supportGoals s1 = supportGoals s \<and>
         distinct (map draftKey (evaluationDrafts
           (foldl (\<lambda>st (e, x). snd (DataService_saveEvaluationDraft e x st)) emptyStore saves)))"
proof -
  have inv1: "distinct (map draftKey (evaluationDrafts s1))"
    unfolding s1_def by (rule saveEvaluationDraft_invariant [OF inv])
  have single: "filter (\<lambda>x. draftKey x = draftInputKey d) (evaluationDrafts s1) = [saved]"
    unfolding s1_def saved_def by (rule saveEvaluationDraft_single [OF inv])
  have fields: "EvaluationDraft.targetName saved = EvaluationDraftInput.targetName d \<and>
         EvaluationDraft.evaluations saved = EvaluationDraftInput.evaluations d \<and>
         EvaluationDraft.subChecks saved = EvaluationDraftInput.subChecks d \<and>
         EvaluationDraft.comments saved = EvaluationDraftInput.comments d \<and>
         EvaluationDraft.completionRate saved = EvaluationDraftInput.completionRate d \<and>
         EvaluationDraft.lastSaved saved = nowISO env \<and>
         EvaluationDraft.updatedAt saved = nowISO env"
    unfolding saved_def by (simp add: saveEvaluationDraft_fields)
  have existing: "length (evaluationDrafts s1) = length ds \<and>
            (\<forall>j<length ds.
               if draftKey (ds ! j) = draftInputKey d
               then evaluationDrafts s1 ! j = saved \<and>
                    EvaluationDraft.id saved = EvaluationDraft.id (ds ! j) \<and>
                    EvaluationDraft.createdAt saved = EvaluationDraft.createdAt (ds ! j)
               else evaluationDrafts s1 ! j = ds ! j)"
    if ex: "draftInputKey d \<in> draftKey ` set ds"
  proof -
    note e = saveEvaluationDraft_existing [OF inv ex [unfolded ds_def], where env = env,
        folded ds_def saved_def s1_def]
    show ?thesis
    proof (intro conjI allI impI)
      show "length (evaluationDrafts s1) = length ds" by (rule e(1))
      fix j assume j: "j < length ds"
      show "if draftKey (ds ! j) = draftInputKey d
               then evaluationDrafts s1 ! j = saved \<and>
                    EvaluationDraft.id saved = EvaluationDraft.id (ds ! j) \<and>
                    EvaluationDraft.createdAt saved = EvaluationDraft.createdAt (ds ! j)
               else evaluationDrafts s1 ! j = ds ! j"
        using e(2) [OF j] e(3) [OF j] by simp
    qed
  qed
  have fresh: "evaluationDrafts s1 = ds @ [saved] \<and>
            EvaluationDraft.id saved =
              ''draft_'' @ string_of_nat (nowMs env) @ ''_'' @ random36 env \<and>
            EvaluationDraft.createdAt saved = nowISO env"
    if nx: "draftInputKey d \<notin> draftKey ` set ds"
    using saveEvaluationDraft_fresh [OF nx [unfolded ds_def], of env]
    unfolding s1_def saved_def ds_def by simp
  have second: "filter (\<lambda>x. draftKey x = draftInputKey d) (evaluationDrafts s2) = [saved'] \<and>
            length (evaluationDrafts s2) = length (evaluationDrafts s1) \<and>
            EvaluationDraft.id saved' = EvaluationDraft.id saved \<and>
            EvaluationDraft.createdAt saved' = EvaluationDraft.createdAt saved \<and>
            EvaluationDraft.evaluations saved' = EvaluationDraftInput.evaluations d' \<and>
            EvaluationDraft.subChecks saved' = EvaluationDraftInput.subChecks d' \<and>
            EvaluationDraft.comments saved' = EvaluationDraftInput.comments d' \<and>
            EvaluationDraft.completionRate saved' = EvaluationDraftInput.completionRate d' \<and>
            EvaluationDraft.lastSaved saved' = nowISO env' \<and>
            EvaluationDraft.updatedAt saved' = nowISO env'"
    if k: "draftInputKey d' = draftInputKey d"
  proof -
    have mem: "saved \<in> set (evaluationDrafts s1)"
      unfolding saved_def s1_def by (rule saveEvaluationDraft_member [OF inv])
    then obtain j where j: "j < length (evaluationDrafts s1)" "evaluationDrafts s1 ! j = saved"
      by (auto simp: in_set_conv_nth)
    have ks: "draftKey saved = draftInputKey d'"
      unfolding saved_def k by (rule draftKey_saved)
    with mem have ex: "draftInputKey d' \<in> draftKey ` set (evaluationDrafts s1)"
      by (metis image_eqI)
    note e = saveEvaluationDraft_existing [OF inv1 ex, where env = env',
        folded saved'_def s2_def]
    from ks j(2) have "draftKey (evaluationDrafts s1 ! j) = draftInputKey d'" by simp
    from e(2) [OF j(1) this] j(2)
    have idc: "EvaluationDraft.id saved' = EvaluationDraft.id saved \<and>
            EvaluationDraft.createdAt saved' = EvaluationDraft.createdAt saved"
      by simp
    have f2: "filter (\<lambda>x. draftKey x = draftInputKey d) (evaluationDrafts s2) = [saved']"
      unfolding s2_def saved'_def k [symmetric]
      by (rule saveEvaluationDraft_single [OF inv1])
    show ?thesis
      using f2 e(1) idc unfolding saved'_def by (simp add: saveEvaluationDraft_fields)
  qed
  have frame: "supportTargets s1 = supportTargets s \<and>
         evaluationRecords s1 = evaluationRecords s \<and>
         supportGoals s1 = supportGoals s"
    unfolding s1_def by (simp add: saveEvaluationDraft_frame)
  have reach: "distinct (map draftKey (evaluationDrafts
           (foldl (\<lambda>st (e, x). snd (DataService_saveEvaluationDraft e x st)) emptyStore saves)))"
    by (rule saveEvaluationDraft_sequence) (simp add: emptyStore_def)
  from inv1 single fields existing fresh second frame reach show ?thesis
    by blast
qed

theorem saveEvaluationDraft_upsert_witness:
  "distinct (map draftKey (evaluationDrafts emptyStore)) \<and>
   draftInputKey (sampleDraftInput [(''staff-0-0'', 1), (''staff-0-1'', 3)] 6) =
     draftInputKey (sampleDraftInput [(''staff-0-0'', 1)] 3) \<and>
   filter (\<lambda>x. draftKey x = draftInputKey (sampleDraftInput [(''staff-0-0'', 1)] 3))
     (evaluationDrafts
        (snd (DataService_saveEvaluationDraft env2
                (sampleDraftInput [(''staff-0-0'', 1), (''staff-0-1'', 3)] 6)
                (snd (DataService_saveEvaluationDraft env1
                        (sampleDraftInput [(''staff-0-0'', 1)] 3) emptyStore))))) =
     [fst (DataService_saveEvaluationDraft env2
             (sampleDraftInput [(''staff-0-0'', 1), (''staff-0-1'', 3)] 6)
             (snd (DataService_saveEvaluationDraft env1
                     (sampleDraftInput [(''staff-0-0'', 1)] 3) emptyStore)))] \<and>
   EvaluationDraft.completionRate
     (fst (DataService_saveEvaluationDraft env2
             (sampleDraftInput [(''staff-0-0'', 1), (''staff-0-1'', 3)] 6)
             (snd (DataService_saveEvaluationDraft env1
                     (sampleDraftInput [(''staff-0-0'', 1)] 3) emptyStore)))) = 6 \<and>
   EvaluationDraft.lastSaved
     (fst (DataService_saveEvaluationDraft env2
             (sampleDraftInput [(''staff-0-0'', 1), (''staff-0-1'', 3)] 6)
             (snd (DataService_saveEvaluationDraft env1
                     (sampleDraftInput [(''staff-0-0'', 1)] 3) emptyStore)))) =
     ''2025-04-01T09:05:00.000Z'' \<and>
   EvaluationDraft.createdAt
     (fst (DataService_saveEvaluationDraft env2
             (sampleDraftInput [(''staff-0-0'', 1), (''staff-0-1'', 3)] 6)
             (snd (DataService_saveEvaluationDraft env1
                     (sampleDraftInput [(''staff-0-0'', 1)] 3) emptyStore)))) =
     ''2025-04-01T09:00:00.000Z''"
proof -
  let ?d = "sampleDraftInput [(''staff-0-0'', 1)] 3"
  let ?d' = "sampleDraftInput [(''staff-0-0'', 1), (''staff-0-1'', 3)] 6"
  have inv: "distinct (map draftKey (evaluationDrafts emptyStore))"
    by (simp add: emptyStore_def)
  have k: "draftInputKey ?d' = draftInputKey ?d"
    by (simp add: draftInputKey_def sampleDraftInput_def)
  have nx: "draftInputKey ?d \<notin> draftKey ` set (evaluationDrafts emptyStore)"
    by (simp add: emptyStore_def)
  have r: "EvaluationDraftInput.completionRate ?d' = 6"
    by (simp add: sampleDraftInput_def)
  have t: "nowISO env1 = ''2025-04-01T09:00:00.000Z''" "nowISO env2 = ''2025-04-01T09:05:00.000Z''"
    by (simp_all add: env1_def env2_def)
  note u = saveEvaluationDraft_upsert [OF inv, where env = env1 and env' = env2
      and d = ?d and d' = ?d']
  from u k nx r t inv show ?thesis by simp
qed

section \<open>Completion rate of a draft save\<close>

lemma distinct_allItems: "distinct allItems"
  by code_simp

lemma length_allItems: "length allItems = 34"
  by code_simp

lemma distinct_allKeys: "distinct allKeys"
  by code_simp

lemma totalItems_34:
  "foldl (\<lambda>total category. total + length (items category)) 0 categories = 34"
  by (simp add: categories_def length_items)

lemma splitFirst_evaluationKey: "splitFirst (evaluationKey who c k) = evaluatorString who"
  by (cases who) (simp_all add: splitFirst_def evaluationKey_def)

lemma evaluatorString_inj: "evaluatorString a = evaluatorString b \<Longrightarrow> a = b"
  by (cases a; cases b) simp_all

lemma allKeys_set:
  "key \<in> set allKeys \<longleftrightarrow> (\<exists>who c k. (c, k) \<in> set allItems \<and> key = evaluationKey who c k)"
proof -
  have "(\<exists>who. P who) \<longleftrightarrow> P Self \<or> P Staff \<or> P Family" for P
    by (metis evaluator.exhaust)
  then show ?thesis
    by (auto simp: allKeys_def)
qed

lemma evaluationKey_inj:
  assumes "(c, k) \<in> set allItems" "(c', k') \<in> set allItems"
    "evaluationKey who c k = evaluationKey who c' k'"
  shows "(c, k) = (c', k')"
proof -
  have "distinct (map (\<lambda>(c, k). evaluationKey who c k) allItems)"
    using distinct_allKeys by (cases who) (simp_all add: allKeys_def)
  then have "inj_on (\<lambda>(c, k). evaluationKey who c k) (set allItems)"
    by (simp add: distinct_map)
  from inj_onD [OF this, of "(c, k)" "(c', k')"] assms show ?thesis
    by simp
qed

lemma Math_round_percent:
  assumes "0 \<le> x" "x \<le> 100"
  shows "0 \<le> Math_round x" "Math_round x \<le> 100"
proof -
  from assms(1) show "0 \<le> Math_round x"
    unfolding Math_round_def by simp
  from assms(2) have "x + 1 / 2 < of_int 101" by simp
  then have "\<lfloor>x + 1 / 2\<rfloor> < 101" by (simp only: floor_less_iff)
  then show "Math_round x \<le> 100" unfolding Math_round_def by simp
qed

lemma responsesWellFormed_entry:
  assumes "responsesWellFormed ev" "(key, v) \<in> set ev"
  shows "key \<in> set allKeys" "0 \<le> v"
  using assms unfolding responsesWellFormed_def list_all_iff by auto

lemma completed_eq_answered:
  assumes wf: "responsesWellFormed ev"
  shows "length (filter (\<lambda>key. splitFirst key = evaluatorString a \<and>
                   (case map_of ev key of None \<Rightarrow> False | Some v \<Rightarrow> 0 < v))
           (Object_keys ev)) =
         length (filter (\<lambda>(c, k). getEvaluation ev a c k \<noteq> 0) allItems)"
proof -
  let ?P = "\<lambda>key. splitFirst key = evaluatorString a \<and>
                   (case map_of ev key of None \<Rightarrow> False | Some v \<Rightarrow> 0 < v)"
  let ?Q = "\<lambda>(c, k). getEvaluation ev a c k \<noteq> 0"
  let ?f = "\<lambda>(c, k). evaluationKey a c k"
  let ?A = "{p \<in> set allItems. ?Q p}"
  let ?B = "{key \<in> fst ` set ev. ?P key}"
  have L: "length (filter ?P (Object_keys ev)) = card ?B"
  proof -
    have "distinct (filter ?P (Object_keys ev))" by (simp add: Object_keys_def)
    then have "length (filter ?P (Object_keys ev)) = card (set (filter ?P (Object_keys ev)))"
      by (rule distinct_card [symmetric])
    also have "set (filter ?P (Object_keys ev)) = ?B"
      by (auto simp: Object_keys_def)
    finally show ?thesis .
  qed
  have R: "length (filter ?Q allItems) = card ?A"
  proof -
    have "distinct (filter ?Q allItems)" using distinct_allItems by simp
    then have "length (filter ?Q allItems) = card (set (filter ?Q allItems))"
      by (rule distinct_card [symmetric])
    also have "set (filter ?Q allItems) = ?A" by auto
    finally show ?thesis .
  qed
  have inj: "inj_on ?f ?A"
  proof (rule inj_onI)
    fix p q assume "p \<in> ?A" "q \<in> ?A" "?f p = ?f q"
    then show "p = q"
      using evaluationKey_inj [of "fst p" "snd p" "fst q" "snd q" a]
      by (cases p; cases q) simp
  qed
  have img: "?f ` ?A = ?B"
  proof (intro set_eqI iffI)
    fix key assume "key \<in> ?f ` ?A"
    then obtain c k where ck: "(c, k) \<in> set allItems" "getEvaluation ev a c k \<noteq> 0"
      "key = evaluationKey a c k" by auto
    from ck(2) obtain v where v: "map_of ev key = Some v" "v \<noteq> 0"
      unfolding getEvaluation_def ck(3) by (auto split: option.splits)
    from v(1) have mem: "(key, v) \<in> set ev" by (rule map_of_SomeD)
    from responsesWellFormed_entry(2) [OF wf mem] v(2) have "0 < v" by simp
    moreover from mem have "key \<in> fst ` set ev" by (metis fst_conv image_eqI)
    moreover have "splitFirst key = evaluatorString a"
      unfolding ck(3) by (rule splitFirst_evaluationKey)
    ultimately show "key \<in> ?B" using v(1) by simp
  next
    fix key assume "key \<in> ?B"
    then have k1: "key \<in> fst ` set ev" and k2: "splitFirst key = evaluatorString a"
      and k3: "case map_of ev key of None \<Rightarrow> False | Some v \<Rightarrow> 0 < v"
      by auto
    from k3 obtain v where v: "map_of ev key = Some v" "0 < v"
      by (auto split: option.splits)
    from k1 obtain v' where "(key, v') \<in> set ev" by auto
    from responsesWellFormed_entry(1) [OF wf this]
    obtain who c k where ck: "(c, k) \<in> set allItems" "key = evaluationKey who c k"
      unfolding allKeys_set by blast
    from k2 ck(2) have "evaluatorString who = evaluatorString a"
      by (simp add: splitFirst_evaluationKey)
    then have "who = a" by (rule evaluatorString_inj)
    with ck(2) have key: "key = evaluationKey a c k" by simp
    with v have "getEvaluation ev a c k \<noteq> 0" by (simp add: getEvaluation_def)
    with ck(1) have "(c, k) \<in> ?A" by simp
    then have "?f (c, k) \<in> ?f ` ?A" by (rule imageI)
    with key show "key \<in> ?f ` ?A" by simp
  qed
  from card_image [OF inj] img have "card ?B = card ?A" by simp
  with L R show ?thesis by simp
qed

lemma saveEvaluationDraft_stored:
  "fst (DataService_saveEvaluationDraft env d s) \<in>
     set (evaluationDrafts (snd (DataService_saveEvaluationDraft env d s)))"
proof (cases "findIndex (\<lambda>x. draftKey x = draftInputKey d) (evaluationDrafts s)")
  case None
  then show ?thesis unfolding saveEvaluationDraft_cases by simp
next
  case (Some i)
  from findIndex_Some [OF Some] have "i < length (evaluationDrafts s)" by simp
  then show ?thesis
    unfolding saveEvaluationDraft_cases Some by (simp add: set_update_memI)
qed

lemma calculateCompletionRate_eq:
  "calculateCompletionRate sess =
     Math_round (of_nat (length (filter (\<lambda>key.
           splitFirst key = evaluatorString (activeEvaluator sess) \<and>
           (case map_of (Session.evaluations sess) key of None \<Rightarrow> False | Some v \<Rightarrow> 0 < v))
         (Object_keys (Session.evaluations sess)))) / of_nat (length allItems) * 100)"
  unfolding calculateCompletionRate_def totalItems_34 length_allItems Let_def
  by (rule refl)

lemma saveDraft_selected:
  assumes "selectedTarget sess = Some target" "selectedTargetId sess \<noteq> []"
  shows "fst (saveDraft env sess s) \<in> Some ` set (evaluationDrafts (snd (saveDraft env sess s)))"
    and "map_option EvaluationDraft.completionRate (fst (saveDraft env sess s)) =
           Some (calculateCompletionRate sess)"
  using assms
  by (simp_all add: saveDraft_def Let_def case_prod_beta saveEvaluationDraft_stored
      saveEvaluationDraft_fields)

text \<open>
  Claim C9 (as amended). A draft save with a selected target stores the returned draft, whose
  \<open>completionRate\<close> is \<open>round(100 * completed / 34)\<close>: 34 is the number of checklist
  items, and \<open>completed\<close> counts the keys of the session's response object whose part
  before the first dash is the active evaluator and whose value is greater than 0. When the
  response object is well formed (every key is the key of a checklist item for some
  evaluator, no value is negative), \<open>completed\<close> is the number of items with a nonzero
  raw response of the active evaluator, so other evaluators' responses and zeros do not
  count, and the rate is an integer from 0 to 100.
\<close>

theorem saveDraft_completionRate:
  fixes env :: Env and sess :: Session and s :: Store and target :: SupportTarget
  assumes "selectedTarget sess = Some target" and "selectedTargetId sess \<noteq> []"
  defines "evals \<equiv> Session.evaluations sess"
  defines "completed \<equiv>
      length (filter (\<lambda>key.
           splitFirst key = evaluatorString (activeEvaluator sess) \<and>
           (case map_of evals key of None \<Rightarrow> False | Some v \<Rightarrow> 0 < v))
         (Object_keys evals))"
  defines "answered \<equiv>
      length (filter (\<lambda>(c, k). getEvaluation evals (activeEvaluator sess) c k \<noteq> 0) allItems)"
  shows "fst (saveDraft env sess s) \<in> Some ` set (evaluationDrafts (snd (saveDraft env sess s))) \<and>
         map_option EvaluationDraft.completionRate (fst (saveDraft env sess s)) =
           Some (Math_round (of_nat completed / of_nat (length allItems) * 100)) \<and>
         length allItems = 34 \<and>
         (responsesWellFormed evals \<longrightarrow>
            completed = answered \<and>
            0 \<le> Math_round (of_nat completed / of_nat (length allItems) * 100) \<and>
            Math_round (of_nat completed / of_nat (length allItems) * 100) \<le> 100)"
proof (intro conjI impI)
  show "fst (saveDraft env sess s) \<in> Some ` set (evaluationDrafts (snd (saveDraft env sess s)))"
    by (rule saveDraft_selected(1) [OF assms(1,2)])
  show "map_option EvaluationDraft.completionRate (fst (saveDraft env sess s)) =
           Some (Math_round (of_nat completed / of_nat (length allItems) * 100))"
    unfolding saveDraft_selected(2) [OF assms(1,2)] calculateCompletionRate_eq
      completed_def evals_def
    by (rule refl)
  show "length allItems = 34" by (rule length_allItems)
next
  assume wf: "responsesWellFormed evals"
  show ca: "completed = answered"
    unfolding completed_def answered_def by (rule completed_eq_answered [OF wf])
  have "answered \<le> length allItems"
    unfolding answered_def by (rule length_filter_le)
  with ca have le: "completed \<le> 34" by (simp add: length_allItems)
  let ?x = "of_nat completed / of_nat (length allItems) * 100 :: rat"
  have x: "?x = of_nat completed * 100 / 34" by (simp add: length_allItems)
  have "0 \<le> ?x" by simp
  moreover have "?x \<le> 100"
  proof -
    from le have "(of_nat completed :: rat) \<le> 34"
      by (metis of_nat_le_iff of_nat_numeral)
    then show ?thesis unfolding x by simp
  qed
  ultimately show "0 \<le> Math_round ?x" "Math_round ?x \<le> 100"
    by (rule Math_round_percent)+
qed

theorem saveDraft_completionRate_witness:
  "responsesWellFormed
     [(''staff-0-0'', 1), (''staff-0-1'', 3), (''self-0-1'', 3), (''staff-0-2'', 0)] \<and>
   map_option EvaluationDraft.completionRate
     (fst (saveDraft env1
        (sampleSession [(''staff-0-0'', 1), (''staff-0-1'', 3), (''self-0-1'', 3), (''staff-0-2'', 0)])
        emptyStore)) = Some 6 \<and>
   length (filter (\<lambda>(c, k). getEvaluation
        [(''staff-0-0'', 1), (''staff-0-1'', 3), (''self-0-1'', 3), (''staff-0-2'', 0)] Staff c k \<noteq> 0)
      allItems) = 2"
proof -
  let ?ev = "[(''staff-0-0'', 1), (''staff-0-1'', 3), (''self-0-1'', 3), (''staff-0-2'', 0)] :: int dict"
  let ?sess = "sampleSession ?ev"
  have sel: "selectedTarget ?sess = Some sampleTarget" "selectedTargetId ?sess \<noteq> []"
    by (simp_all add: sampleSession_def)
  have ev: "Session.evaluations ?sess = ?ev" "activeEvaluator ?sess = Staff"
    by (simp_all add: sampleSession_def)
  have wf: "responsesWellFormed ?ev" by code_simp
  have completed: "length (filter (\<lambda>key.
           splitFirst key = evaluatorString Staff \<and>
           (case map_of ?ev key of None \<Rightarrow> False | Some v \<Rightarrow> 0 < v))
         (Object_keys ?ev)) = 2"
    by code_simp
  have r: "Math_round (of_nat 2 / of_nat 34 * 100) = 6" by code_simp
  have m: "Math_round (of_nat 2 / of_nat (length allItems) * 100) = 6"
    unfolding length_allItems by (rule r)
  note t = saveDraft_completionRate [OF sel, of env1 emptyStore, unfolded ev completed m]
  from t have 1: "map_option EvaluationDraft.completionRate (fst (saveDraft env1 ?sess emptyStore)) = Some 6"
    by blast
  from t wf have 2: "2 = length (filter (\<lambda>(c, k). getEvaluation ?ev Staff c k \<noteq> 0) allItems)"
    by blast
  from wf 1 2 show ?thesis by simp
qed

text \<open>
  The claim as stated fails on response objects that are not well formed. A stored -1 on
  the first item is a nonzero raw response, yet the rate is 0 where the claim gives
  \<open>round(100 / 34) = 3\<close>; a key outside the checklist is counted although no item is
  answered; and 35 such keys give a rate of 103.
\<close>

theorem saveDraft_completionRate_counterexample:
  "getEvaluation [(''staff-0-0'', - 1)] Staff 0 0 = - 1 \<and>
   length (filter (\<lambda>(c, k). getEvaluation [(''staff-0-0'', - 1)] Staff c k \<noteq> 0) allItems) = 1 \<and>
   Math_round (of_nat 1 / of_nat 34 * 100) = 3 \<and>
   map_option EvaluationDraft.completionRate
     (fst (saveDraft env1 (sampleSession [(''staff-0-0'', - 1)]) emptyStore)) = Some 0 \<and>
   length (filter (\<lambda>(c, k). getEvaluation [(''staff-9-9'', 1)] Staff c k \<noteq> 0) allItems) = 0 \<and>
   map_option EvaluationDraft.completionRate
     (fst (saveDraft env1 (sampleSession [(''staff-9-9'', 1)]) emptyStore)) = Some 3 \<and>
   map_option EvaluationDraft.completionRate
     (fst (saveDraft env1
        (sampleSession (map (\<lambda>n. (''staff-9-'' @ string_of_nat n, 1)) [0..<35]))
        emptyStore)) = Some 103"
proof -
  have sel: "selectedTarget (sampleSession ev) = Some sampleTarget"
    "selectedTargetId (sampleSession ev) \<noteq> []" for ev
    by (simp_all add: sampleSession_def)
  note rate = saveDraft_selected(2) [OF sel]
  have 1: "getEvaluation [(''staff-0-0'', - 1)] Staff 0 0 = - 1" by code_simp
  have 2: "length (filter (\<lambda>(c, k). getEvaluation [(''staff-0-0'', - 1)] Staff c k \<noteq> 0) allItems) = 1"
    by code_simp
  have 3: "Math_round (of_nat 1 / of_nat 34 * 100) = 3" by code_simp
  have 4: "calculateCompletionRate (sampleSession [(''staff-0-0'', - 1)]) = 0" by code_simp
  have 5: "length (filter (\<lambda>(c, k). getEvaluation [(''staff-9-9'', 1)] Staff c k \<noteq> 0) allItems) = 0"
    by code_simp
  have 6: "calculateCompletionRate (sampleSession [(''staff-9-9'', 1)]) = 3" by code_simp
  have 7: "calculateCompletionRate
      (sampleSession (map (\<lambda>n. (''staff-9-'' @ string_of_nat n, 1)) [0..<35])) = 103"
    by code_simp
  from 1 2 3 4 5 6 7 show ?thesis by (simp only: rate)
qed

end
